theory Spec2Isabelle
  imports Main
begin

section \<open>JavaScript values and the helpers of the checkers\<close>

text \<open>
  The checkers of \<^verbatim>\<open>lib/checkers/index.js\<close> receive and inspect untyped JavaScript
  values: a component of a parsed URI is a string, \<^verbatim>\<open>undefined\<close> or \<^verbatim>\<open>null\<close>, an
  option is compared with \<^verbatim>\<open>true\<close>, an index is a number. The values of the model
  are the primitive ones. A number is an integer (the indices and lengths the
  checkers compute); a string is a list of characters, one per code unit.
\<close>

datatype jsval = JUndefined | JNull | JBool bool | JNum (num: int) | JStr (str: string)

text \<open>
  Modelled from the spec: the helper \<^verbatim>\<open>exists\<close> of \<^verbatim>\<open>lib/helpers\<close>, which is not among
  the sources. The spec calls a component "present" or "absent" ("optional"):
  a value exists unless it is \<^verbatim>\<open>undefined\<close> or \<^verbatim>\<open>null\<close>.
\<close>

fun exists :: "jsval \<Rightarrow> bool" where
  "exists JUndefined = False"
| "exists JNull = False"
| "exists _ = True"

text \<open>
  Modelled from the spec: the helper \<^verbatim>\<open>is\<close> of \<^verbatim>\<open>lib/helpers\<close>, which is not among the
  sources, at the type \<^verbatim>\<open>String\<close> (the source's \<^verbatim>\<open>is(String, v)\<close>): the spec's
  "a string".
\<close>

fun is_String :: "jsval \<Rightarrow> bool" where
  "is_String (JStr _) = True"
| "is_String _ = False"

text \<open>
  Modelled from the spec: the helper \<^verbatim>\<open>is\<close> of \<^verbatim>\<open>lib/helpers\<close> at the type \<^verbatim>\<open>Number\<close>
  (the source's \<^verbatim>\<open>is(Number, v)\<close>): the spec's index and scan bound.
\<close>

fun is_Number :: "jsval \<Rightarrow> bool" where
  "is_Number (JNum _) = True"
| "is_Number _ = False"

text \<open>
  \<^verbatim>\<open>v[i]\<close>: the one-character string at an index inside a string, \<^verbatim>\<open>undefined\<close>
  at any other index, a negative one included. The checkers index a value that
  is not a string only under a loop bound of 0, that is never; the model gives
  \<^verbatim>\<open>undefined\<close> there.
\<close>

fun charAt :: "jsval \<Rightarrow> int \<Rightarrow> jsval" where
  "charAt (JStr s) i = (if 0 \<le> i \<and> i < int (length s) then JStr [s ! nat i] else JUndefined)"
| "charAt _ i = JUndefined"

text \<open>\<^verbatim>\<open>array.includes(v)\<close> on an array of strings.\<close>

fun array_includes :: "string list \<Rightarrow> jsval \<Rightarrow> bool" where
  "array_includes xs (JStr s) = (s \<in> set xs)"
| "array_includes xs _ = False"

text \<open>\<^verbatim>\<open>string.startsWith(prefix)\<close>.\<close>

definition startsWith :: "string \<Rightarrow> string \<Rightarrow> bool" where
  "startsWith s p = (take (length p) s = p)"

section \<open>Errors\<close>

text \<open>
  Every failure of a checker is a \<^verbatim>\<open>URIError\<close> whose \<^verbatim>\<open>code\<close> is set before it is
  thrown. The model keeps the code of the error (its message is a rendering of
  the offending value) and returns it as the left summand of the result.
\<close>

datatype error =
    URI_INVALID_TYPE
  | URI_MISSING_SCHEME
  | URI_EMPTY_SCHEME
  | URI_MISSING_PATH
  | URI_INVALID_PATH
  | URI_INVALID_HOST
  | URI_INVALID_SCHEME_CHAR
  | URI_INVALID_USERINFO_CHAR
  | URI_INVALID_PORT
  | URI_INVALID_CHAR
  | URI_INVALID_SITEMAP_CHAR
  | URI_INVALID_PERCENT_ENCODING
  | URI_MISSING_AUTHORITY
  | URI_INVALID_SCHEME



section \<open>The character classifiers\<close>

text \<open>
  The module \<^verbatim>\<open>lib/checkers/chars.js\<close> is not among the sources. The checkers
  take its four predicates as they import them; each is applied to
  \<^verbatim>\<open>string[i]\<close>, a one-character string or \<^verbatim>\<open>undefined\<close>, and \<open>isSchemeChar\<close>
  also to the flag \<^verbatim>\<open>start\<close> of its options.
\<close>

record chars =
  isURIChar :: "jsval \<Rightarrow> bool"
  isSchemeChar :: "jsval \<Rightarrow> bool \<Rightarrow> bool"
  isPercentEncodingChar :: "jsval \<Rightarrow> bool"
  isUserinfoChar :: "jsval \<Rightarrow> bool"

section \<open>checkPercentEncoding\<close>

text \<open>
  Lines 48 to 72: the check at the index \<open>i\<close> under the bound \<open>len\<close>. The offset
  returned is 0 or 2; every \<^verbatim>\<open>throw\<close> carries the code
  \<^verbatim>\<open>URI_INVALID_PERCENT_ENCODING\<close>.
\<close>

definition percentEncodingAt :: "chars \<Rightarrow> jsval \<Rightarrow> int \<Rightarrow> int \<Rightarrow> error + nat" where
  "percentEncodingAt C string len i =
     (if len > 0 \<and> charAt string i = JStr ''%'' then
        (if i + 2 < len then
           (if \<not> isPercentEncodingChar C (charAt string (i + 1)) then
              Inl URI_INVALID_PERCENT_ENCODING
            else if \<not> isPercentEncodingChar C (charAt string (i + 2)) then
              Inl URI_INVALID_PERCENT_ENCODING
            else Inr 2)
         else Inl URI_INVALID_PERCENT_ENCODING)
      else Inr 0)"

text \<open>Lines 39 to 47: the type check and the defaults of \<^verbatim>\<open>len\<close> and \<^verbatim>\<open>i\<close>.\<close>

definition checkPercentEncoding :: "chars \<Rightarrow> jsval \<Rightarrow> jsval \<Rightarrow> jsval \<Rightarrow> error + nat" where
  "checkPercentEncoding C string index stringLen =
     (if \<not> is_String string then Inl URI_INVALID_PERCENT_ENCODING
      else
        let len = (if is_Number stringLen \<and> num stringLen \<ge> 0 then num stringLen
                   else int (length (str string)));
            i = (if is_Number index \<and> num index < len then num index else 0)
        in percentEncodingAt C string len i)"

section \<open>The components of a URI and the results of the checkers\<close>

text \<open>
  The object \<^verbatim>\<open>parseURI\<close> returns, as the checkers destructure it. The checkers
  test every field before they use it, so a field is any value.
\<close>

record components =
  scheme :: jsval
  authority :: jsval
  authorityPunydecoded :: jsval
  userinfo :: jsval
  host :: jsval
  hostPunydecoded :: jsval
  port :: jsval
  path :: jsval
  pathqf :: jsval
  query :: jsval
  fragment :: jsval

text \<open>
  The object a checker returns, built by an object literal: the eleven
  components and \<^verbatim>\<open>valid: true\<close>; from \<^verbatim>\<open>checkURISyntax\<close> also \<^verbatim>\<open>schemeLen\<close>.
  \<open>frozen\<close> is not a property of the object: it records what
  \<^verbatim>\<open>Object.isFrozen\<close> answers for it, which is \<^verbatim>\<open>false\<close> for the value of an object
  literal with properties until \<^verbatim>\<open>Object.freeze\<close> is applied to it. The only
  \<^verbatim>\<open>Object.freeze\<close> of the source (line 491) is applied to \<^verbatim>\<open>module.exports\<close>.
\<close>

record check_result = components +
  valid :: bool
  frozen :: bool

record syntax_result = check_result +
  schemeLen :: nat

section \<open>checkURISyntax\<close>

text \<open>
  Lines 116 to 173: the checks on the destructured result of \<^verbatim>\<open>parseURI(uri)\<close>,
  in the order of the source.
\<close>

definition checkParsed :: "components \<Rightarrow> error + syntax_result" where
  "checkParsed c =
     (let schemeLen = (if is_String (scheme c) then length (str (scheme c)) else 0) in
      if \<not> is_String (scheme c) then Inl URI_MISSING_SCHEME
      else if schemeLen \<le> 0 then Inl URI_EMPTY_SCHEME
      else if \<not> is_String (path c) then Inl URI_MISSING_PATH
      else if (if is_String (authority c) \<and> length (str (authority c)) > 0
               then \<not> (str (path c) = [] \<or> startsWith (str (path c)) ''/'')
               else startsWith (str (path c)) ''//'')
        then Inl URI_INVALID_PATH
      else if \<not> exists (authority c) \<and> exists (authorityPunydecoded c) then Inl URI_INVALID_HOST
      else Inr \<lparr> scheme = scheme c,
                 authority = authority c,
                 authorityPunydecoded = authorityPunydecoded c,
                 userinfo = userinfo c,
                 host = host c,
                 hostPunydecoded = hostPunydecoded c,
                 port = port c,
                 path = path c,
                 pathqf = pathqf c,
                 query = query c,
                 fragment = fragment c,
                 valid = True,
                 frozen = False,
                 schemeLen = schemeLen \<rparr>)"

text \<open>
  Lines 93 to 115. \<^verbatim>\<open>parseURI\<close> (\<^verbatim>\<open>lib/parser\<close>) is not among the sources: the
  checker takes it as it imports it, and calls it on strings only.
\<close>

definition checkURISyntax :: "(string \<Rightarrow> components) \<Rightarrow> jsval \<Rightarrow> error + syntax_result" where
  "checkURISyntax parse uri =
     (if \<not> is_String uri then Inl URI_INVALID_TYPE
      else checkParsed (parse (str uri)))"

section \<open>The Sitemap entity table\<close>

text \<open>
  Modelled from the spec: \<^verbatim>\<open>escapeCodesKeys\<close> of the module \<^verbatim>\<open>lib/sitemap\<close>, which is
  not among the sources. Section 4.7 of the spec gives the table: "a fixed
  mapping from escape sequence to raw character: \<^verbatim>\<open>&amp;\<close> to \<^verbatim>\<open>&\<close>, \<^verbatim>\<open>&lt;\<close> to \<^verbatim>\<open><\<close>,
  \<^verbatim>\<open>&gt;\<close> to \<^verbatim>\<open>>\<close>, \<^verbatim>\<open>&quot;\<close> to the double quote, \<^verbatim>\<open>&apos;\<close> to the apostrophe". These
  are its escape sequences, in the order of the spec.
\<close>

definition escapeCodesKeys :: "string list" where
  "escapeCodesKeys = [''&amp;'', ''&lt;'', ''&gt;'', ''&quot;'', ''&apos;'']"

text \<open>
  Modelled from the spec: \<^verbatim>\<open>escapeCodesKeysLen\<close> of \<^verbatim>\<open>lib/sitemap\<close>, the number of the
  escape sequences ("exactly five fixed escape sequences").
\<close>

definition escapeCodesKeysLen :: nat where
  "escapeCodesKeysLen = 5"

text \<open>
  Modelled from the spec: \<^verbatim>\<open>entitiesKeys\<close> of \<^verbatim>\<open>lib/sitemap\<close>, the raw characters of the
  same table, each a one-character string.
\<close>

definition entitiesKeys :: "string list" where
  "entitiesKeys = [''&'', ''<'', ''>'', [CHR 0x22], [CHR 0x27]]"

section \<open>checkURI\<close>

text \<open>
  The other imports of the checkers that are not among the sources:
  \<^verbatim>\<open>isDomain\<close> (\<^verbatim>\<open>lib/domain\<close>) and \<^verbatim>\<open>isIP\<close> (\<^verbatim>\<open>lib/ip\<close>), of which the checkers use the
  truth value only, and the cast \<^verbatim>\<open>int\<close> (\<^verbatim>\<open>lib/helpers\<close>), whose result is compared
  with \<^verbatim>\<open>undefined\<close>. The spec (sections 4.3, 4.5, 4.6 and 7) has all of them
  return a value and never throw.
\<close>

record modules =
  parseURI :: "string \<Rightarrow> components"
  isDomain :: "jsval \<Rightarrow> bool"
  isIP :: "jsval \<Rightarrow> bool"
  cast_int :: "jsval \<Rightarrow> jsval"
  chars :: chars

text \<open>Lines 224 to 230: the loop over the characters of the scheme, from \<open>i\<close> on.\<close>

function schemeLoop :: "chars \<Rightarrow> jsval \<Rightarrow> nat \<Rightarrow> nat \<Rightarrow> error + unit" where
  "schemeLoop C sch len i =
     (if i < len then
        (if \<not> isSchemeChar C (charAt sch (int i)) (i = 0) then Inl URI_INVALID_SCHEME_CHAR
         else schemeLoop C sch len (i + 1))
      else Inr ())"
  by pat_completeness auto
termination
  by (relation "measure (\<lambda>(C, sch, len, i). len - i)") auto

declare schemeLoop.simps [simp del]

text \<open>
  Lines 237 to 249: the loop over the characters of the userinfo, from \<open>i\<close> on.
  The offset of a percent-encoding is added to \<open>i\<close> before the loop's own step.
\<close>

function userinfoLoop :: "chars \<Rightarrow> jsval \<Rightarrow> nat \<Rightarrow> nat \<Rightarrow> error + unit" where
  "userinfoLoop C u len i =
     (if i < len then
        (if \<not> isUserinfoChar C (charAt u (int i)) then Inl URI_INVALID_USERINFO_CHAR
         else
           (case checkPercentEncoding C u (JNum (int i)) (JNum (int len)) of
              Inl e \<Rightarrow> Inl e
            | Inr offset \<Rightarrow> userinfoLoop C u len (i + offset + 1)))
      else Inr ())"
  by pat_completeness auto
termination
  by (relation "measure (\<lambda>(C, u, len, i). len - i)") auto

declare userinfoLoop.simps [simp del]

text \<open>
  Lines 292 to 300: the first escape sequence of the table, from \<open>index\<close> on,
  that fits before \<open>pathqfLen\<close> and equals the substring at \<open>i\<close>; its length is
  the \<^verbatim>\<open>escapeOffset\<close>, \<open>None\<close> when the loop ends with \<^verbatim>\<open>escapeOffset\<close> undefined.
\<close>

function escapeLoop :: "string \<Rightarrow> nat \<Rightarrow> nat \<Rightarrow> nat \<Rightarrow> nat option" where
  "escapeLoop p pathqfLen i index =
     (if index < escapeCodesKeysLen then
        (let escape = escapeCodesKeys ! index;
             escapeLen = length escape
         in if i + escapeLen \<le> pathqfLen \<and> escape = take escapeLen (drop i p)
            then Some escapeLen
            else escapeLoop p pathqfLen i (index + 1))
      else None)"
  by pat_completeness auto
termination
  by (relation "measure (\<lambda>(p, pathqfLen, i, index). escapeCodesKeysLen - index)") auto

declare escapeLoop.simps [simp del]

lemma escapeLoop_positive: "escapeLoop p pathqfLen i index = Some k \<Longrightarrow> 0 < k"
proof (induction p pathqfLen i index rule: escapeLoop.induct)
  case (1 p pathqfLen i index)
  have len: "0 < length (escapeCodesKeys ! index)" if "index < escapeCodesKeysLen"
  proof -
    from that have "index \<in> {0, 1, 2, 3, 4}"
      by (auto simp: escapeCodesKeysLen_def)
    then show ?thesis
      by (auto simp: escapeCodesKeys_def)
  qed
  from "1.prems" show ?case
    using "1.IH" len
    by (subst (asm) escapeLoop.simps) (auto simp: Let_def split: if_splits)
qed

text \<open>
  The option record of the checkers: \<^verbatim>\<open>{ https, web, sitemap }\<close>, a key that is
  left out being \<^verbatim>\<open>undefined\<close>. \<^verbatim>\<open>checkURI\<close> reads \<^verbatim>\<open>sitemap\<close> only.
\<close>

record options =
  https :: jsval
  web :: jsval
  sitemap :: jsval

text \<open>
  Lines 271 to 315: the loop over the characters of \<^verbatim>\<open>pathqf\<close>, from \<open>i\<close> on. Within
  one iteration \<open>i\<close> is advanced by the offset of a percent-encoding and then, in
  Sitemap mode at an \<^verbatim>\<open>&\<close>, by \<^verbatim>\<open>escapeOffset - 1\<close>, before the loop's own step.
\<close>

function pathqfLoop :: "chars \<Rightarrow> bool \<Rightarrow> jsval \<Rightarrow> nat \<Rightarrow> nat \<Rightarrow> error + unit" where
  "pathqfLoop C checkSitemap p len i =
     (if i < len then
        (if \<not> isURIChar C (charAt p (int i)) then Inl URI_INVALID_CHAR
         else
           (case checkPercentEncoding C p (JNum (int i)) (JNum (int len)) of
              Inl e \<Rightarrow> Inl e
            | Inr offset \<Rightarrow>
                (if checkSitemap then
                   (if charAt p (int (i + offset)) = JStr ''&'' then
                      (case escapeLoop (str p) len (i + offset) 0 of
                         None \<Rightarrow> Inl URI_INVALID_SITEMAP_CHAR
                       | Some escapeOffset \<Rightarrow>
                           pathqfLoop C checkSitemap p len (i + offset + escapeOffset - 1 + 1))
                    else if array_includes entitiesKeys (charAt p (int (i + offset))) then
                      Inl URI_INVALID_SITEMAP_CHAR
                    else pathqfLoop C checkSitemap p len (i + offset + 1))
                 else pathqfLoop C checkSitemap p len (i + offset + 1))))
      else Inr ())"
  by pat_completeness auto
termination
proof (relation "measure (\<lambda>(C, checkSitemap, p, len, i). len - i)")
  fix C :: chars and checkSitemap :: bool and p :: jsval and len i offset escapeOffset :: nat
  assume "i < len" and "escapeLoop (str p) len (i + offset) 0 = Some escapeOffset"
  then have "0 < escapeOffset"
    using escapeLoop_positive by blast
  with \<open>i < len\<close>
  show "((C, checkSitemap, p, len, i + offset + escapeOffset - 1 + 1), (C, checkSitemap, p, len, i))
          \<in> measure (\<lambda>(C, checkSitemap, p, len, i). len - i)"
    by simp
qed auto

declare pathqfLoop.simps [simp del]

text \<open>Lines 233 to 264: the checks made when the authority exists.\<close>

definition authorityChecks :: "modules \<Rightarrow> syntax_result \<Rightarrow> error + unit" where
  "authorityChecks M r =
     (let userinfoLen = (if is_String (userinfo r) then length (str (userinfo r)) else 0) in
      (case userinfoLoop (chars M) (userinfo r) userinfoLen 0 of
         Inl e \<Rightarrow> Inl e
       | Inr _ \<Rightarrow>
           (if \<not> isIP M (host r) \<and> \<not> isDomain M (host r) then Inl URI_INVALID_HOST
            else if exists (port r) \<and> cast_int M (port r) = JUndefined then Inl URI_INVALID_PORT
            else Inr ())))"

text \<open>Lines 205 to 331.\<close>

definition checkURI :: "modules \<Rightarrow> jsval \<Rightarrow> options \<Rightarrow> error + check_result" where
  "checkURI M uri opts =
     (case checkURISyntax (parseURI M) uri of
        Inl e \<Rightarrow> Inl e
      | Inr r \<Rightarrow>
          (let checkSitemap = (sitemap opts = JBool True) in
           (case schemeLoop (chars M) (scheme r) (schemeLen r) 0 of
              Inl e \<Rightarrow> Inl e
            | Inr _ \<Rightarrow>
                (case (if exists (authority r) then authorityChecks M r else Inr ()) of
                   Inl e \<Rightarrow> Inl e
                 | Inr _ \<Rightarrow>
                     (let pathqfLen =
                            (if is_String (pathqf r) then length (str (pathqf r)) else 0) in
                      (case pathqfLoop (chars M) checkSitemap (pathqf r) pathqfLen 0 of
                         Inl e \<Rightarrow> Inl e
                       | Inr _ \<Rightarrow>
                           Inr \<lparr> scheme = scheme r,
                                 authority = authority r,
                                 authorityPunydecoded = authorityPunydecoded r,
                                 userinfo = userinfo r,
                                 host = host r,
                                 hostPunydecoded = hostPunydecoded r,
                                 port = port r,
                                 path = path r,
                                 pathqf = pathqf r,
                                 query = query r,
                                 fragment = fragment r,
                                 valid = True,
                                 frozen = False \<rparr>))))))"

section \<open>checkHttpURL and its aliases\<close>

text \<open>Lines 356 to 364.\<close>

definition schemesToCheck :: "options \<Rightarrow> string list" where
  "schemesToCheck opts =
     (if https opts = JBool True then [''https'']
      else if web opts = JBool True then [''http'', ''https'']
      else [''http''])"

text \<open>Lines 355 to 406. \<^verbatim>\<open>checkURI\<close> is called with a new record \<^verbatim>\<open>{ sitemap }\<close>.\<close>

definition checkHttpURL :: "modules \<Rightarrow> jsval \<Rightarrow> options \<Rightarrow> error + check_result" where
  "checkHttpURL M uri opts =
     (case checkURI M uri \<lparr> https = JUndefined, web = JUndefined, sitemap = sitemap opts \<rparr> of
        Inl e \<Rightarrow> Inl e
      | Inr r \<Rightarrow>
          if \<not> array_includes (schemesToCheck opts) (scheme r) then Inl URI_INVALID_SCHEME
          else if \<not> is_String (authority r) then Inl URI_MISSING_AUTHORITY
          else Inr \<lparr> scheme = scheme r,
                     authority = authority r,
                     authorityPunydecoded = authorityPunydecoded r,
                     userinfo = userinfo r,
                     host = host r,
                     hostPunydecoded = hostPunydecoded r,
                     port = port r,
                     path = path r,
                     pathqf = pathqf r,
                     query = query r,
                     fragment = fragment r,
                     valid = True,
                     frozen = False \<rparr>)"

text \<open>Lines 419 to 489: the aliases, each a call of \<^verbatim>\<open>checkHttpURL\<close> with an option literal.\<close>

definition checkHttpsURL :: "modules \<Rightarrow> jsval \<Rightarrow> error + check_result" where
  "checkHttpsURL M uri =
     checkHttpURL M uri \<lparr> https = JBool True, web = JUndefined, sitemap = JUndefined \<rparr>"

definition checkHttpSitemapURL :: "modules \<Rightarrow> jsval \<Rightarrow> error + check_result" where
  "checkHttpSitemapURL M uri =
     checkHttpURL M uri \<lparr> https = JUndefined, web = JUndefined, sitemap = JBool True \<rparr>"

definition checkHttpsSitemapURL :: "modules \<Rightarrow> jsval \<Rightarrow> error + check_result" where
  "checkHttpsSitemapURL M uri =
     checkHttpURL M uri \<lparr> https = JBool True, web = JUndefined, sitemap = JBool True \<rparr>"

definition checkWebURL :: "modules \<Rightarrow> jsval \<Rightarrow> error + check_result" where
  "checkWebURL M uri =
     checkHttpURL M uri \<lparr> https = JUndefined, web = JBool True, sitemap = JUndefined \<rparr>"

definition checkSitemapURL :: "modules \<Rightarrow> jsval \<Rightarrow> error + check_result" where
  "checkSitemapURL M uri =
     checkHttpURL M uri \<lparr> https = JUndefined, web = JBool True, sitemap = JBool True \<rparr>"

section \<open>The absent modules, from the spec\<close>

text \<open>
  The theorems below hold for every character classifier, parser and host
  validator the checkers may import. Where a claim names a concrete URI, the
  classifiers and the parser are the ones the spec describes.
\<close>

subsection \<open>Character classes (section 4.1 of the spec)\<close>

text \<open>
  Modelled from the spec: the "letters" of the character classes of
  \<^verbatim>\<open>lib/checkers/chars.js\<close>, which is not among the sources.
\<close>

definition letters :: string where
  "letters = ''abcdefghijklmnopqrstuvwxyzABCDEFGHIJKLMNOPQRSTUVWXYZ''"

text \<open>Modelled from the spec: the "digits" of the same classes.\<close>

definition digits :: string where
  "digits = ''0123456789''"

text \<open>
  Modelled from the spec: a class of \<^verbatim>\<open>lib/checkers/chars.js\<close>.
  "Unreserved = letters, digits, \<^verbatim>\<open>-\<close>, \<^verbatim>\<open>.\<close>, \<^verbatim>\<open>_\<close>, \<^verbatim>\<open>~\<close>".
\<close>

definition unreserved :: string where
  "unreserved = letters @ digits @ ''-._~''"

text \<open>
  Modelled from the spec: a class of \<^verbatim>\<open>lib/checkers/chars.js\<close>.
  "Sub-delims = the fixed RFC-3986 set \<^verbatim>\<open>! $ & ' ( ) * + , ; =\<close>".
\<close>

definition subDelims :: string where
  "subDelims = ''!$&'' @ [CHR 0x27] @ ''()*+,;=''"

text \<open>
  Modelled from the spec: the hexadecimal digits ("\<^verbatim>\<open>isPercentEncodingChar(c)\<close>:
  hex digit"), in either case.
\<close>

definition hexDigits :: string where
  "hexDigits = digits @ ''ABCDEFabcdef''"

text \<open>
  Modelled from the spec: the classifiers are "predicates over a single
  character". One holds of the one-character strings of its class and of no
  other value.
\<close>

fun charIn :: "string \<Rightarrow> jsval \<Rightarrow> bool" where
  "charIn cls (JStr [c]) = (c \<in> set cls)"
| "charIn cls _ = False"

text \<open>
  Modelled from the spec: the four predicates of \<^verbatim>\<open>lib/checkers/chars.js\<close>.
  "\<^verbatim>\<open>isSchemeChar(c, {start})\<close>: letter if \<^verbatim>\<open>start\<close>, else letter/digit/\<^verbatim>\<open>+\<close>/\<^verbatim>\<open>-\<close>/\<^verbatim>\<open>.\<close>;
  \<^verbatim>\<open>isUserinfoChar(c)\<close>: unreserved, sub-delims, \<^verbatim>\<open>:\<close>; \<^verbatim>\<open>isURIChar(c)\<close>: unreserved,
  sub-delims, \<^verbatim>\<open>:\<close>/\<^verbatim>\<open>@\<close>/\<^verbatim>\<open>/\<close>/\<^verbatim>\<open>?\<close>; \<^verbatim>\<open>isPercentEncodingChar(c)\<close>: hex digit".
\<close>

definition spec_chars :: chars where
  "spec_chars =
     \<lparr> isURIChar = charIn (unreserved @ subDelims @ '':@/?''),
       isSchemeChar = (\<lambda>c start. if start then charIn letters c
                                   else charIn (letters @ digits @ ''+-.'') c),
       isPercentEncodingChar = charIn hexDigits,
       isUserinfoChar = charIn (unreserved @ subDelims @ '':'') \<rparr>"

subsection \<open>The grammar parser (section 4.3 of the spec)\<close>

text \<open>
  Modelled from the spec: "everything before the last" occurrence of a
  character (step 3 of section 4.3), for a string that has one.
\<close>

definition beforeLast :: "char \<Rightarrow> string \<Rightarrow> string" where
  "beforeLast c s = rev (tl (dropWhile (\<lambda>x. x \<noteq> c) (rev s)))"

text \<open>Modelled from the spec: what follows the last occurrence of a character.\<close>

definition afterLast :: "char \<Rightarrow> string \<Rightarrow> string" where
  "afterLast c s = rev (takeWhile (\<lambda>x. x \<noteq> c) (rev s))"

text \<open>
  Modelled from the spec: the labels of a host, "one dot-separated segment of a
  domain name" each (step 6 of section 4.3, glossary).
\<close>

fun splitOn :: "char \<Rightarrow> string \<Rightarrow> string list" where
  "splitOn c [] = [[]]"
| "splitOn c (x # xs) =
     (if x = c then [] # splitOn c xs
      else (case splitOn c xs of l # ls \<Rightarrow> (x # l) # ls | [] \<Rightarrow> [[x]]))"

text \<open>Modelled from the spec: a host from its labels.\<close>

fun joinWith :: "char \<Rightarrow> string list \<Rightarrow> string" where
  "joinWith c [] = []"
| "joinWith c [l] = l"
| "joinWith c (l # ls) = l @ c # joinWith c ls"

text \<open>
  Modelled from the spec: step 6 of section 4.3. "If host is not a bracketed
  IPv6 literal, every label is passed through the Punycode Codec's decode
  direction [...]; if decoding fails for a label, hostPunydecoded is left
  undefined". The codec is not among the sources: \<open>decode\<close> is its decode
  direction on one label, \<open>None\<close> its failure.
\<close>

definition punydecodeHost :: "(string \<Rightarrow> string option) \<Rightarrow> string \<Rightarrow> jsval" where
  "punydecodeHost decode h =
     (if startsWith h ''['' then JStr h
      else
        let ls = map decode (splitOn (CHR ''.'') h)
        in if None \<in> set ls then JUndefined else JStr (joinWith (CHR ''.'') (map the ls)))"

text \<open>
  Modelled from the spec: step 3 of section 4.3, the userinfo, host and port of
  an authority. "Split off userinfo as everything before the last \<^verbatim>\<open>@\<close>. Split
  host:port by locating the last \<^verbatim>\<open>:\<close> that is not inside a bracketed IPv6 literal.
  A leading \<^verbatim>\<open>[\<close> signals an IPv6 literal; its matching \<^verbatim>\<open>]\<close> terminates the host
  segment regardless of embedded \<^verbatim>\<open>:\<close>."
\<close>

definition splitAuthority :: "string \<Rightarrow> jsval \<times> string \<times> jsval" where
  "splitAuthority a =
     (let u = (if CHR ''@'' \<in> set a then JStr (beforeLast (CHR ''@'') a) else JUndefined);
          hp = (if CHR ''@'' \<in> set a then afterLast (CHR ''@'') a else a)
      in if startsWith hp ''['' \<and> CHR '']'' \<in> set hp then
           (let lit = takeWhile (\<lambda>x. x \<noteq> CHR '']'') hp @ '']'';
                rest = drop (length lit) hp
            in (u, lit, if startsWith rest '':'' then JStr (tl rest) else JUndefined))
         else if CHR '':'' \<in> set hp \<and> \<not> startsWith hp ''['' then
           (u, beforeLast (CHR '':'') hp, JStr (afterLast (CHR '':'') hp))
         else (u, hp, JUndefined))"

text \<open>
  Modelled from the spec: \<^verbatim>\<open>parseURI\<close> of \<^verbatim>\<open>lib/parser\<close>, which is not among the
  sources, by the steps of section 4.3. The scheme is "the prefix up to the
  first \<^verbatim>\<open>:\<close>; if absent, scheme is undefined"; "if immediately followed by \<^verbatim>\<open>//\<close>,
  an authority is present: it extends to the next of \<^verbatim>\<open>/\<close>, \<^verbatim>\<open>?\<close>, \<^verbatim>\<open>#\<close>, or
  end-of-string"; the rest "is path, terminated at the first \<^verbatim>\<open>?\<close> or \<^verbatim>\<open>#\<close>; query
  runs to the first \<^verbatim>\<open>#\<close>; fragment runs to the end"; "pathqf is reconstructed as
  path + (\<^verbatim>\<open>?\<close>+query if present) + (\<^verbatim>\<open>#\<close>+fragment if present)";
  "authorityPunydecoded mirrors authority with host replaced by
  hostPunydecoded". A component that is absent is \<^verbatim>\<open>undefined\<close>.
\<close>

definition parseURI_spec :: "(string \<Rightarrow> string option) \<Rightarrow> string \<Rightarrow> components" where
  "parseURI_spec decode uri =
     (let hasScheme = (CHR '':'' \<in> set uri);
          rest = (if hasScheme then tl (dropWhile (\<lambda>x. x \<noteq> CHR '':'') uri) else uri);
          hasAuthority = startsWith rest ''//'';
          a = takeWhile (\<lambda>x. x \<notin> set ''/?#'') (drop 2 rest);
          afterAuthority = (if hasAuthority then drop (2 + length a) rest else rest);
          p = takeWhile (\<lambda>x. x \<notin> set ''?#'') afterAuthority;
          afterPath = drop (length p) afterAuthority;
          hasQuery = startsWith afterPath ''?'';
          q = takeWhile (\<lambda>x. x \<noteq> CHR ''#'') (tl afterPath);
          afterQuery = (if hasQuery then drop (1 + length q) afterPath else afterPath);
          hasFragment = startsWith afterQuery ''#'';
          f = tl afterQuery;
          (u, h, po) = splitAuthority a;
          hd = punydecodeHost decode h
      in \<lparr> scheme = (if hasScheme then JStr (takeWhile (\<lambda>x. x \<noteq> CHR '':'') uri) else JUndefined),
           authority = (if hasAuthority then JStr a else JUndefined),
           authorityPunydecoded =
             (if hasAuthority \<and> is_String hd then
                JStr ((if is_String u then str u @ ''@'' else []) @ str hd @
                      (if is_String po then '':'' @ str po else []))
              else JUndefined),
           userinfo = (if hasAuthority then u else JUndefined),
           host = (if hasAuthority then JStr h else JUndefined),
           hostPunydecoded = (if hasAuthority then hd else JUndefined),
           port = (if hasAuthority then po else JUndefined),
           path = JStr p,
           pathqf = JStr (p @ (if hasQuery then ''?'' @ q else []) @
                          (if hasFragment then ''#'' @ f else [])),
           query = (if hasQuery then JStr q else JUndefined),
           fragment = (if hasFragment then JStr f else JUndefined) \<rparr>)"

text \<open>
  Modelled from the spec: the imports of the checkers, with the classifiers and
  the parser above for \<^verbatim>\<open>lib/checkers/chars.js\<close> and \<^verbatim>\<open>lib/parser\<close>. The Punycode
  codec, the host validators and the cast are left open.
\<close>

definition spec_modules ::
  "(string \<Rightarrow> string option) \<Rightarrow> (jsval \<Rightarrow> bool) \<Rightarrow> (jsval \<Rightarrow> bool) \<Rightarrow> (jsval \<Rightarrow> jsval) \<Rightarrow> modules" where
  "spec_modules decode domain ip cast =
     \<lparr> parseURI = parseURI_spec decode,
       isDomain = domain,
       isIP = ip,
       cast_int = cast,
       chars = spec_chars \<rparr>"


section \<open>The percent-encoding validator\<close>

text \<open>
  C1. For a string \<open>s\<close>, an index \<open>i\<close> and a bound \<open>len\<close> with
  \<open>i < len \<le> length s\<close>: when \<open>s[i]\<close> is not \<^verbatim>\<open>%\<close>, \<^verbatim>\<open>checkPercentEncoding(s, i, len)\<close>
  returns 0; when \<open>s[i]\<close> is \<^verbatim>\<open>%\<close>, it returns 2 exactly when \<open>i + 2 < len\<close> and the
  classifier \<^verbatim>\<open>isPercentEncodingChar\<close> accepts both \<open>s[i+1]\<close> and \<open>s[i+2]\<close>, and
  throws \<^verbatim>\<open>URI_INVALID_PERCENT_ENCODING\<close> otherwise. With the hexadecimal digits
  as the classifier it fails for \<^verbatim>\<open>%\<close>, \<^verbatim>\<open>%A\<close>, \<^verbatim>\<open>%GG\<close> and \<^verbatim>\<open>%2G\<close>, and returns 2 for
  \<^verbatim>\<open>%20\<close> and for \<^verbatim>\<open>%C3%BC\<close> at the indices 0 and 3.
\<close>

theorem checkPercentEncoding_within_bounds:
  "(i < len \<and> len \<le> length s \<longrightarrow>
      checkPercentEncoding C (JStr s) (JNum (int i)) (JNum (int len)) =
        (if s ! i \<noteq> CHR ''%'' then Inr 0
         else if i + 2 < len \<and> isPercentEncodingChar C (JStr [s ! (i + 1)])
                 \<and> isPercentEncodingChar C (JStr [s ! (i + 2)]) then Inr 2
         else Inl URI_INVALID_PERCENT_ENCODING))
   \<and> checkPercentEncoding spec_chars (JStr ''%'') (JNum 0) (JNum 1) = Inl URI_INVALID_PERCENT_ENCODING
   \<and> checkPercentEncoding spec_chars (JStr ''%A'') (JNum 0) (JNum 2) = Inl URI_INVALID_PERCENT_ENCODING
   \<and> checkPercentEncoding spec_chars (JStr ''%GG'') (JNum 0) (JNum 3) = Inl URI_INVALID_PERCENT_ENCODING
   \<and> checkPercentEncoding spec_chars (JStr ''%2G'') (JNum 0) (JNum 3) = Inl URI_INVALID_PERCENT_ENCODING
   \<and> checkPercentEncoding spec_chars (JStr ''%20'') (JNum 0) (JNum 3) = Inr 2
   \<and> checkPercentEncoding spec_chars (JStr ''%C3%BC'') (JNum 0) (JNum 6) = Inr 2
   \<and> checkPercentEncoding spec_chars (JStr ''%C3%BC'') (JNum 3) (JNum 6) = Inr 2"
proof -
  have general: "checkPercentEncoding C (JStr s) (JNum (int i)) (JNum (int len)) =
        (if s ! i \<noteq> CHR ''%'' then Inr 0
         else if i + 2 < len \<and> isPercentEncodingChar C (JStr [s ! (i + 1)])
                 \<and> isPercentEncodingChar C (JStr [s ! (i + 2)]) then Inr 2
         else Inl URI_INVALID_PERCENT_ENCODING)"
    if "i < len" "len \<le> length s"
    using that by (auto simp: checkPercentEncoding_def percentEncodingAt_def Let_def nat_add_distrib)
  have examples:
    "checkPercentEncoding spec_chars (JStr ''%'') (JNum 0) (JNum 1) = Inl URI_INVALID_PERCENT_ENCODING"
    "checkPercentEncoding spec_chars (JStr ''%A'') (JNum 0) (JNum 2) = Inl URI_INVALID_PERCENT_ENCODING"
    "checkPercentEncoding spec_chars (JStr ''%GG'') (JNum 0) (JNum 3) = Inl URI_INVALID_PERCENT_ENCODING"
    "checkPercentEncoding spec_chars (JStr ''%2G'') (JNum 0) (JNum 3) = Inl URI_INVALID_PERCENT_ENCODING"
    "checkPercentEncoding spec_chars (JStr ''%20'') (JNum 0) (JNum 3) = Inr 2"
    "checkPercentEncoding spec_chars (JStr ''%C3%BC'') (JNum 0) (JNum 6) = Inr 2"
    "checkPercentEncoding spec_chars (JStr ''%C3%BC'') (JNum 3) (JNum 6) = Inr 2"
    by (simp_all add: checkPercentEncoding_def percentEncodingAt_def spec_chars_def hexDigits_def digits_def)
  from general examples show ?thesis by blast
qed

theorem checkPercentEncoding_within_bounds_witness:
  "(1::nat) < 4 \<and> 4 \<le> length ''a%20'' \<and>
   checkPercentEncoding spec_chars (JStr ''a%20'') (JNum 1) (JNum 4) = Inr 2"
  using checkPercentEncoding_within_bounds [of 1 4 "''a%20''" spec_chars]
  by (simp add: spec_chars_def hexDigits_def digits_def)

lemma charAt_empty: "charAt (JStr []) i = JUndefined"
  by simp

text \<open>
  C9. Outside those bounds \<^verbatim>\<open>checkPercentEncoding\<close> still returns or throws its own
  error. A first argument that is not a string throws
  \<^verbatim>\<open>URI_INVALID_PERCENT_ENCODING\<close>. An index that is missing, not a number, or not
  below the bound is replaced by 0: the call equals the call at index 0. A
  \<^verbatim>\<open>stringLen\<close> that is missing, not a number, or negative is replaced by the
  length of the string. On the empty string the result is 0, whatever the index
  and the bound.
\<close>

theorem checkPercentEncoding_argument_shapes:
  "(\<not> is_String v \<longrightarrow> checkPercentEncoding C v index stringLen = Inl URI_INVALID_PERCENT_ENCODING)
   \<and> (\<not> is_Number index \<or>
        num index \<ge> (if is_Number stringLen \<and> num stringLen \<ge> 0 then num stringLen else int (length s)) \<longrightarrow>
        checkPercentEncoding C (JStr s) index stringLen = checkPercentEncoding C (JStr s) (JNum 0) stringLen)
   \<and> (\<not> is_Number stringLen \<or> num stringLen < 0 \<longrightarrow>
        checkPercentEncoding C (JStr s) index stringLen =
          checkPercentEncoding C (JStr s) index (JNum (int (length s))))
   \<and> checkPercentEncoding C (JStr []) index stringLen = Inr 0"
proof -
  have not_string: "checkPercentEncoding C v index stringLen = Inl URI_INVALID_PERCENT_ENCODING"
    if "\<not> is_String v"
    using that by (simp add: checkPercentEncoding_def)
  have index_default:
    "checkPercentEncoding C (JStr s) index stringLen = checkPercentEncoding C (JStr s) (JNum 0) stringLen"
    if "\<not> is_Number index \<or>
        num index \<ge> (if is_Number stringLen \<and> num stringLen \<ge> 0 then num stringLen else int (length s))"
    using that by (auto simp: checkPercentEncoding_def Let_def)
  have len_default:
    "checkPercentEncoding C (JStr s) index stringLen =
       checkPercentEncoding C (JStr s) index (JNum (int (length s)))"
    if "\<not> is_Number stringLen \<or> num stringLen < 0"
    using that by (auto simp: checkPercentEncoding_def Let_def)
  have empty: "checkPercentEncoding C (JStr []) index stringLen = Inr 0"
    by (simp add: checkPercentEncoding_def percentEncodingAt_def Let_def charAt_empty
        del: charAt.simps)
  show ?thesis
    by (intro conjI impI not_string index_default len_default empty)
qed

theorem checkPercentEncoding_argument_shapes_witness:
  "checkPercentEncoding spec_chars (JNum 37) JUndefined JUndefined = Inl URI_INVALID_PERCENT_ENCODING
   \<and> checkPercentEncoding spec_chars (JStr ''%41b'') (JNum 7) JUndefined = Inr 2
   \<and> checkPercentEncoding spec_chars (JStr ''%41b'') (JStr ''3'') (JNum (- 1)) = Inr 2
   \<and> checkPercentEncoding spec_chars (JStr []) (JNum 0) (JNum 5) = Inr 0"
proof -
  have at0: "checkPercentEncoding spec_chars (JStr ''%41b'') (JNum 0) (JNum 4) = Inr 2"
    by (simp add: checkPercentEncoding_def percentEncodingAt_def spec_chars_def hexDigits_def
        digits_def)
  have a: "checkPercentEncoding spec_chars (JNum 37) JUndefined JUndefined
             = Inl URI_INVALID_PERCENT_ENCODING"
    using checkPercentEncoding_argument_shapes [of "JNum 37" spec_chars JUndefined JUndefined "[]"]
    by simp
  have b1: "checkPercentEncoding spec_chars (JStr ''%41b'') (JNum 7) JUndefined
             = checkPercentEncoding spec_chars (JStr ''%41b'') (JNum 0) JUndefined"
    using checkPercentEncoding_argument_shapes [of JNull spec_chars "JNum 7" JUndefined "''%41b''"]
    by simp
  have b2: "checkPercentEncoding spec_chars (JStr ''%41b'') (JNum 0) JUndefined
             = checkPercentEncoding spec_chars (JStr ''%41b'') (JNum 0) (JNum 4)"
    using checkPercentEncoding_argument_shapes [of JNull spec_chars "JNum 0" JUndefined "''%41b''"]
    by simp
  have c1: "checkPercentEncoding spec_chars (JStr ''%41b'') (JStr ''3'') (JNum (- 1))
             = checkPercentEncoding spec_chars (JStr ''%41b'') (JNum 0) (JNum (- 1))"
    using checkPercentEncoding_argument_shapes
      [of JNull spec_chars "JStr ''3''" "JNum (- 1)" "''%41b''"]
    by simp
  have c2: "checkPercentEncoding spec_chars (JStr ''%41b'') (JNum 0) (JNum (- 1))
             = checkPercentEncoding spec_chars (JStr ''%41b'') (JNum 0) (JNum 4)"
    using checkPercentEncoding_argument_shapes [of JNull spec_chars "JNum 0" "JNum (- 1)" "''%41b''"]
    by simp
  have d: "checkPercentEncoding spec_chars (JStr []) (JNum 0) (JNum 5) = Inr 0"
    using checkPercentEncoding_argument_shapes [of JNull spec_chars "JNum 0" "JNum 5" "[]"]
    by simp
  from a b1 b2 c1 c2 d at0 show ?thesis
    by simp
qed

section \<open>The syntax checker\<close>

lemma is_String_exists: "is_String v \<Longrightarrow> exists v"
  by (cases v) auto

text \<open>The error of \<open>checkParsed\<close>, check by check.\<close>

lemma checkParsed_Inl:
  "checkParsed c = Inl e \<longleftrightarrow>
     (if \<not> is_String (scheme c) then e = URI_MISSING_SCHEME
      else if str (scheme c) = [] then e = URI_EMPTY_SCHEME
      else if \<not> is_String (path c) then e = URI_MISSING_PATH
      else if is_String (authority c) \<and> str (authority c) \<noteq> [] then
        (if str (path c) \<noteq> [] \<and> \<not> startsWith (str (path c)) ''/'' then e = URI_INVALID_PATH
         else False)
      else if startsWith (str (path c)) ''//'' then e = URI_INVALID_PATH
      else if \<not> exists (authority c) \<and> exists (authorityPunydecoded c) then e = URI_INVALID_HOST
      else False)"
  by (auto simp: checkParsed_def Let_def dest: is_String_exists)

lemma parseURI_spec_double_slash:
  "parseURI_spec Some ''http://a//b'' =
     \<lparr> scheme = JStr ''http'', authority = JStr ''a'', authorityPunydecoded = JStr ''a'',
       userinfo = JUndefined, host = JStr ''a'', hostPunydecoded = JStr ''a'', port = JUndefined,
       path = JStr ''//b'', pathqf = JStr ''//b'', query = JUndefined, fragment = JUndefined \<rparr>"
  by (simp add: parseURI_spec_def startsWith_def splitAuthority_def punydecodeHost_def Let_def)

text \<open>
  C2, as the code has it. For a URI whose parse has a non-empty scheme and a
  string path \<open>p\<close>: when the authority is a non-empty string, \<^verbatim>\<open>checkURISyntax\<close>
  throws \<^verbatim>\<open>URI_INVALID_PATH\<close> exactly when \<open>p\<close> is not empty and does not start with
  \<^verbatim>\<open>/\<close>, so a path that starts with \<^verbatim>\<open>//\<close> is accepted; when the authority is absent,
  empty or not a string, it throws \<^verbatim>\<open>URI_INVALID_PATH\<close> exactly when \<open>p\<close> starts
  with \<^verbatim>\<open>//\<close>.
\<close>

theorem checkURISyntax_path_rule:
  "parse uri = c \<and> scheme c = JStr sch \<and> sch \<noteq> [] \<and> path c = JStr p \<longrightarrow>
     ((\<exists>a. authority c = JStr a \<and> a \<noteq> []) \<longrightarrow>
        (checkURISyntax parse (JStr uri) = Inl URI_INVALID_PATH) = (p \<noteq> [] \<and> \<not> startsWith p ''/''))
   \<and> ((\<exists>a. authority c = JStr a \<and> a \<noteq> []) \<and> startsWith p ''//'' \<longrightarrow>
        checkURISyntax parse (JStr uri) \<noteq> Inl URI_INVALID_PATH)
   \<and> (\<not> (\<exists>a. authority c = JStr a \<and> a \<noteq> []) \<longrightarrow>
        (checkURISyntax parse (JStr uri) = Inl URI_INVALID_PATH) = startsWith p ''//'')"
proof (intro impI, elim conjE)
  assume c: "parse uri = c" and sch: "scheme c = JStr sch" "sch \<noteq> []" and p: "path c = JStr p"
  have auth: "(is_String (authority c) \<and> str (authority c) \<noteq> [])
                = (\<exists>a. authority c = JStr a \<and> a \<noteq> [])"
    by (cases "authority c") auto
  have slashes: "startsWith p ''//'' \<Longrightarrow> p \<noteq> [] \<and> startsWith p ''/''"
    by (cases p) (auto simp: startsWith_def)
  have eq: "(checkURISyntax parse (JStr uri) = Inl URI_INVALID_PATH) =
          (if \<exists>a. authority c = JStr a \<and> a \<noteq> [] then p \<noteq> [] \<and> \<not> startsWith p ''/''
           else startsWith p ''//'')"
    using c sch p by (simp add: checkURISyntax_def checkParsed_Inl auth)
  show "((\<exists>a. authority c = JStr a \<and> a \<noteq> []) \<longrightarrow>
        (checkURISyntax parse (JStr uri) = Inl URI_INVALID_PATH) = (p \<noteq> [] \<and> \<not> startsWith p ''/''))
   \<and> ((\<exists>a. authority c = JStr a \<and> a \<noteq> []) \<and> startsWith p ''//'' \<longrightarrow>
        checkURISyntax parse (JStr uri) \<noteq> Inl URI_INVALID_PATH)
   \<and> (\<not> (\<exists>a. authority c = JStr a \<and> a \<noteq> []) \<longrightarrow>
        (checkURISyntax parse (JStr uri) = Inl URI_INVALID_PATH) = startsWith p ''//'')"
    using eq slashes by auto
qed

theorem checkURISyntax_path_rule_witness:
  "checkURISyntax (parseURI_spec Some) (JStr ''http://a//b'') \<noteq> Inl URI_INVALID_PATH"
  using checkURISyntax_path_rule [where parse = "parseURI_spec Some" and uri = "''http://a//b''"
      and c = "parseURI_spec Some ''http://a//b''" and sch = "''http''" and p = "''//b''"]
  by (simp add: parseURI_spec_double_slash startsWith_def)

text \<open>
  The claim C2 fails as stated: the parse of \<^verbatim>\<open>http://a//b\<close> has the authority \<^verbatim>\<open>a\<close>
  and the path \<^verbatim>\<open>//b\<close>, and \<^verbatim>\<open>checkURISyntax\<close> returns its record. (The codec of the
  parser is one that leaves the label \<^verbatim>\<open>a\<close> as it is.)
\<close>

theorem checkURISyntax_double_slash_counterexample:
  "checkURISyntax (parseURI_spec Some) (JStr ''http://a//b'') =
     Inr \<lparr> scheme = JStr ''http'', authority = JStr ''a'', authorityPunydecoded = JStr ''a'',
               userinfo = JUndefined, host = JStr ''a'', hostPunydecoded = JStr ''a'',
               port = JUndefined, path = JStr ''//b'', pathqf = JStr ''//b'', query = JUndefined,
               fragment = JUndefined,
               valid = True, frozen = False, schemeLen = 4 \<rparr>"
  by (simp add: checkURISyntax_def parseURI_spec_double_slash checkParsed_def startsWith_def)




section \<open>The HTTP checkers\<close>

text \<open>
  What a checker returns has the parser's components, \<open>components.truncate r\<close>
  being the eleven components of the record \<open>r\<close>, and is marked valid.
\<close>

lemma checkParsed_Inr:
  "checkParsed c = Inr r \<Longrightarrow>
     components.truncate r = c \<and> valid r \<and> \<not> frozen r
     \<and> schemeLen r = length (str (scheme c))"
  unfolding checkParsed_def Let_def
  by (auto simp: components.truncate_def split: if_splits)

lemma checkURISyntax_Inr:
  "checkURISyntax parse uri = Inr r \<Longrightarrow>
     is_String uri \<and> components.truncate r = parse (str uri) \<and> valid r \<and> \<not> frozen r
     \<and> schemeLen r = length (str (scheme (parse (str uri))))"
  unfolding checkURISyntax_def
  by (auto split: if_splits dest: checkParsed_Inr)

lemma truncate_fields:
  assumes "components.truncate r = c"
  shows "scheme r = scheme c" "authority r = authority c"
    "authorityPunydecoded r = authorityPunydecoded c" "userinfo r = userinfo c"
    "host r = host c" "hostPunydecoded r = hostPunydecoded c" "port r = port c"
    "path r = path c" "pathqf r = pathqf c" "query r = query c" "fragment r = fragment c"
  using assms by (auto simp: components.truncate_def)

lemma checkURI_Inr:
  "checkURI M uri opts = Inr r \<Longrightarrow>
     is_String uri \<and> components.truncate r = parseURI M (str uri) \<and> valid r \<and> \<not> frozen r"
  unfolding checkURI_def Let_def
  by (auto simp: components.truncate_def split: sum.splits dest!: checkURISyntax_Inr)

lemma checkHttpURL_cases:
  "checkHttpURL M uri opts =
     (case checkURI M uri \<lparr> https = JUndefined, web = JUndefined, sitemap = sitemap opts \<rparr> of
        Inl e \<Rightarrow> Inl e
      | Inr r \<Rightarrow>
          if \<not> array_includes (schemesToCheck opts) (scheme r) then Inl URI_INVALID_SCHEME
          else if \<not> is_String (authority r) then Inl URI_MISSING_AUTHORITY
          else Inr r)"
  unfolding checkHttpURL_def
  by (auto split: sum.splits dest!: checkURI_Inr)

text \<open>The checkers on \<^verbatim>\<open>mailto:\<close> and on \<^verbatim>\<open>http://example.com/\<close>, by evaluation.\<close>

lemma checkURISyntax_mailto:
  "checkURISyntax (parseURI_spec decode) (JStr ''mailto:'') =
     Inr \<lparr> scheme = JStr ''mailto'', authority = JUndefined, authorityPunydecoded = JUndefined,
               userinfo = JUndefined, host = JUndefined, hostPunydecoded = JUndefined,
               port = JUndefined, path = JStr [], pathqf = JStr [], query = JUndefined,
               fragment = JUndefined,
               valid = True, frozen = False, schemeLen = 6 \<rparr>"
  by code_simp

lemma checkURI_mailto:
  "checkURI (spec_modules decode domain ip cast) (JStr ''mailto:'') opts =
     Inr \<lparr> scheme = JStr ''mailto'', authority = JUndefined, authorityPunydecoded = JUndefined,
               userinfo = JUndefined, host = JUndefined, hostPunydecoded = JUndefined,
               port = JUndefined, path = JStr [], pathqf = JStr [], query = JUndefined,
               fragment = JUndefined,
               valid = True, frozen = False \<rparr>"
  by code_simp

lemma checkURI_example_com:
  "checkURI (spec_modules Some (\<lambda>h. True) (\<lambda>h. False) id) (JStr ''http://example.com/'')
       \<lparr> https = JUndefined, web = JUndefined, sitemap = JUndefined \<rparr> =
     Inr \<lparr> scheme = JStr ''http'', authority = JStr ''example.com'',
               authorityPunydecoded = JStr ''example.com'', userinfo = JUndefined,
               host = JStr ''example.com'', hostPunydecoded = JStr ''example.com'',
               port = JUndefined, path = JStr ''/'', pathqf = JStr ''/'', query = JUndefined,
               fragment = JUndefined,
               valid = True, frozen = False \<rparr>"
  by code_simp

text \<open>
  C5. \<^verbatim>\<open>checkHttpURL(uri, opts)\<close> succeeds exactly when
  \<^verbatim>\<open>checkURI(uri, { sitemap: opts.sitemap })\<close> succeeds, the scheme of its record is
  allowed and its authority is a string; it then returns the record of
  \<^verbatim>\<open>checkURI\<close>. Allowed is \<^verbatim>\<open>https\<close> when \<^verbatim>\<open>opts.https\<close> is \<^verbatim>\<open>true\<close>; otherwise \<^verbatim>\<open>http\<close>
  or \<^verbatim>\<open>https\<close> when \<^verbatim>\<open>opts.web\<close> is \<^verbatim>\<open>true\<close>; otherwise (the default) \<^verbatim>\<open>http\<close>. An error
  of \<^verbatim>\<open>checkURI\<close> is passed on; a scheme that is not allowed throws
  \<^verbatim>\<open>URI_INVALID_SCHEME\<close>; an allowed scheme with an authority that is not a
  string throws \<^verbatim>\<open>URI_MISSING_AUTHORITY\<close>. With the parser and the character
  classes of the spec, \<^verbatim>\<open>checkURISyntax\<close> accepts \<^verbatim>\<open>mailto:\<close> and \<^verbatim>\<open>checkHttpURL\<close> throws
  \<^verbatim>\<open>URI_INVALID_SCHEME\<close> on it, under any options.
\<close>

theorem checkHttpURL_scheme_and_authority:
  "((\<exists>r. checkHttpURL M uri opts = Inr r) =
      (\<exists>r. checkURI M uri \<lparr> https = JUndefined, web = JUndefined, sitemap = sitemap opts \<rparr> = Inr r
           \<and> (\<exists>s. scheme r = JStr s
                  \<and> (if https opts = JBool True then s = ''https''
                      else if web opts = JBool True then s = ''http'' \<or> s = ''https''
                      else s = ''http''))
           \<and> is_String (authority r)))
   \<and> (checkHttpURL M uri opts = Inr r \<longrightarrow>
        checkURI M uri \<lparr> https = JUndefined, web = JUndefined, sitemap = sitemap opts \<rparr> = Inr r)
   \<and> (checkURI M uri \<lparr> https = JUndefined, web = JUndefined, sitemap = sitemap opts \<rparr> = Inl e \<longrightarrow>
        checkHttpURL M uri opts = Inl e)
   \<and> (checkURI M uri \<lparr> https = JUndefined, web = JUndefined, sitemap = sitemap opts \<rparr> = Inr r
        \<and> \<not> (\<exists>s. scheme r = JStr s
                  \<and> (if https opts = JBool True then s = ''https''
                      else if web opts = JBool True then s = ''http'' \<or> s = ''https''
                      else s = ''http'')) \<longrightarrow>
        checkHttpURL M uri opts = Inl URI_INVALID_SCHEME)
   \<and> (checkURI M uri \<lparr> https = JUndefined, web = JUndefined, sitemap = sitemap opts \<rparr> = Inr r
        \<and> (\<exists>s. scheme r = JStr s
                  \<and> (if https opts = JBool True then s = ''https''
                      else if web opts = JBool True then s = ''http'' \<or> s = ''https''
                      else s = ''http''))
        \<and> \<not> is_String (authority r) \<longrightarrow>
        checkHttpURL M uri opts = Inl URI_MISSING_AUTHORITY)
   \<and> (\<exists>r. checkURISyntax (parseURI_spec decode) (JStr ''mailto:'') = Inr r)
   \<and> checkHttpURL (spec_modules decode domain ip cast) (JStr ''mailto:'') opts = Inl URI_INVALID_SCHEME"
proof -
  let ?allowed = "\<lambda>r :: check_result. \<exists>s. scheme r = JStr s
                  \<and> (if https opts = JBool True then s = ''https''
                      else if web opts = JBool True then s = ''http'' \<or> s = ''https''
                      else s = ''http'')"
  have allowed: "array_includes (schemesToCheck opts) (scheme r) = ?allowed r" for r
    by (cases "scheme r") (auto simp: schemesToCheck_def)
  have mailto_syntax: "\<exists>r. checkURISyntax (parseURI_spec decode) (JStr ''mailto:'') = Inr r"
    by (simp add: checkURISyntax_mailto)
  have mailto_http: "checkHttpURL (spec_modules decode domain ip cast) (JStr ''mailto:'') opts
                   = Inl URI_INVALID_SCHEME"
    by (simp add: checkHttpURL_cases checkURI_mailto schemesToCheck_def)
  show ?thesis
    using mailto_syntax mailto_http
    by (auto simp: checkHttpURL_cases allowed split: sum.splits)
qed

theorem checkHttpURL_scheme_and_authority_witness:
  "\<exists>r. checkHttpURL (spec_modules Some (\<lambda>h. True) (\<lambda>h. False) id) (JStr ''http://example.com/'')
          \<lparr> https = JUndefined, web = JUndefined, sitemap = JUndefined \<rparr> = Inr r"
proof -
  note succeeds = checkHttpURL_scheme_and_authority
    [where M = "spec_modules Some (\<lambda>h. True) (\<lambda>h. False) id" and uri = "JStr ''http://example.com/''"
       and opts = "\<lparr> https = JUndefined, web = JUndefined, sitemap = JUndefined \<rparr>",
     THEN conjunct1]
  show ?thesis
    unfolding succeeds by (simp add: checkURI_example_com)
qed

text \<open>
  C6. Each alias is \<^verbatim>\<open>checkHttpURL\<close> under its preset of options: the same record
  or the same error.
\<close>

theorem aliases_are_presets:
  "checkHttpsURL M uri =
     checkHttpURL M uri \<lparr> https = JBool True, web = JUndefined, sitemap = JUndefined \<rparr>
   \<and> checkHttpSitemapURL M uri =
     checkHttpURL M uri \<lparr> https = JUndefined, web = JUndefined, sitemap = JBool True \<rparr>
   \<and> checkHttpsSitemapURL M uri =
     checkHttpURL M uri \<lparr> https = JBool True, web = JUndefined, sitemap = JBool True \<rparr>
   \<and> checkWebURL M uri =
     checkHttpURL M uri \<lparr> https = JUndefined, web = JBool True, sitemap = JUndefined \<rparr>
   \<and> checkSitemapURL M uri =
     checkHttpURL M uri \<lparr> https = JUndefined, web = JBool True, sitemap = JBool True \<rparr>"
  by (simp add: checkHttpsURL_def checkHttpSitemapURL_def checkHttpsSitemapURL_def
      checkWebURL_def checkSitemapURL_def)

text \<open>
  C10. With both \<^verbatim>\<open>https: true\<close> and \<^verbatim>\<open>web: true\<close> the schemes to check are \<^verbatim>\<open>https\<close>
  alone: \<^verbatim>\<open>checkHttpURL\<close> behaves as under \<^verbatim>\<open>https: true\<close> only, a record it returns
  has the scheme \<^verbatim>\<open>https\<close>, and a URI that \<^verbatim>\<open>checkURI\<close> accepts with the scheme \<^verbatim>\<open>http\<close>
  throws \<^verbatim>\<open>URI_INVALID_SCHEME\<close>.
\<close>

theorem checkHttpURL_https_over_web:
  "schemesToCheck \<lparr> https = JBool True, web = JBool True, sitemap = sm \<rparr> = [''https'']
   \<and> checkHttpURL M uri \<lparr> https = JBool True, web = JBool True, sitemap = sm \<rparr> =
       checkHttpURL M uri \<lparr> https = JBool True, web = JUndefined, sitemap = sm \<rparr>
   \<and> (checkHttpURL M uri \<lparr> https = JBool True, web = JBool True, sitemap = sm \<rparr> = Inr r \<longrightarrow>
        scheme r = JStr ''https'')
   \<and> (checkURI M uri \<lparr> https = JUndefined, web = JUndefined, sitemap = sm \<rparr> = Inr r
        \<and> scheme r = JStr ''http'' \<longrightarrow>
        checkHttpURL M uri \<lparr> https = JBool True, web = JBool True, sitemap = sm \<rparr>
          = Inl URI_INVALID_SCHEME)"
proof -
  have only_https: "array_includes [''https''] v = (v = JStr ''https'')" for v
    by (cases v) auto
  show ?thesis
    by (auto simp: checkHttpURL_cases schemesToCheck_def only_https split: sum.splits if_splits)
qed

theorem checkHttpURL_https_over_web_witness:
  "checkHttpURL (spec_modules Some (\<lambda>h. True) (\<lambda>h. False) id) (JStr ''http://example.com/'')
     \<lparr> https = JBool True, web = JBool True, sitemap = JUndefined \<rparr> = Inl URI_INVALID_SCHEME"
proof -
  note rejected = checkHttpURL_https_over_web
    [where M = "spec_modules Some (\<lambda>h. True) (\<lambda>h. False) id" and uri = "JStr ''http://example.com/''"
       and sm = JUndefined, THEN conjunct2, THEN conjunct2, THEN conjunct2, rule_format]
  show ?thesis
    by (rule rejected, rule conjI, rule checkURI_example_com) simp
qed

section \<open>What the checkers return\<close>






section \<open>The host check of checkURI\<close>

text \<open>The scheme loop and the userinfo loop end without an error on valid characters.\<close>

lemma charAt_in_range: "k < length s \<Longrightarrow> charAt (JStr s) (int k) = JStr [s ! k]"
  by simp

lemma schemeLoop_accepts:
  "(\<And>k. i \<le> k \<Longrightarrow> k < len \<Longrightarrow> isSchemeChar C (charAt sch (int k)) (k = 0)) \<Longrightarrow>
     schemeLoop C sch len i = Inr ()"
proof (induction C sch len i rule: schemeLoop.induct)
  case (1 C sch len i)
  show ?case
  proof (cases "i < len")
    case True
    then have "isSchemeChar C (charAt sch (int i)) (i = 0)"
      using "1.prems" by simp
    moreover have "schemeLoop C sch len (i + 1) = Inr ()"
    proof (intro "1.IH")
      fix k
      assume "i + 1 \<le> k" "k < len"
      then show "isSchemeChar C (charAt sch (int k)) (k = 0)"
        using "1.prems" [of k] by simp
    qed (use True \<open>isSchemeChar C (charAt sch (int i)) (i = 0)\<close> in auto)
    ultimately show ?thesis
      using True by (subst schemeLoop.simps) simp
  next
    case False
    then show ?thesis by (subst schemeLoop.simps) simp
  qed
qed

lemma checkPercentEncoding_in_loop:
  "i < len \<Longrightarrow> is_String u \<Longrightarrow>
     checkPercentEncoding C u (JNum (int i)) (JNum (int len)) = percentEncodingAt C u (int len) (int i)"
  by (simp add: checkPercentEncoding_def)

lemma userinfoLoop_accepts:
  assumes "is_String u"
    and "\<And>k. i \<le> k \<Longrightarrow> k < len \<Longrightarrow>
           isUserinfoChar C (charAt u (int k)) \<and>
           (charAt u (int k) = JStr ''%'' \<longrightarrow>
              k + 2 < len \<and> isPercentEncodingChar C (charAt u (int k + 1))
              \<and> isPercentEncodingChar C (charAt u (int k + 2)))"
  shows "userinfoLoop C u len i = Inr ()"
  using assms
proof (induction C u len i rule: userinfoLoop.induct)
  case (1 C u len i)
  show ?case
  proof (cases "i < len")
    case True
    have here: "isUserinfoChar C (charAt u (int i))"
      "charAt u (int i) = JStr ''%'' \<Longrightarrow>
         i + 2 < len \<and> isPercentEncodingChar C (charAt u (int i + 1))
         \<and> isPercentEncodingChar C (charAt u (int i + 2))"
      using "1.prems"(2) [of i] True by auto
    obtain offset where offset: "checkPercentEncoding C u (JNum (int i)) (JNum (int len)) = Inr offset"
      using here(2) True "1.prems"(1)
      by (cases "charAt u (int i) = JStr ''%''")
         (auto simp: checkPercentEncoding_in_loop percentEncodingAt_def)
    have "userinfoLoop C u len (i + offset + 1) = Inr ()"
      using True here(1) offset "1.prems"
      by (intro "1.IH") auto
    then show ?thesis
      using True here(1) offset by (subst userinfoLoop.simps) simp
  next
    case False
    then show ?thesis by (subst userinfoLoop.simps) simp
  qed
qed


lemma userinfoLoop_valid_userinfo:
  assumes "\<forall>u. v = JStr u \<longrightarrow>
        (\<forall>k<length u. isUserinfoChar C (JStr [u ! k])
           \<and> (u ! k = CHR ''%'' \<longrightarrow> k + 2 < length u
                \<and> isPercentEncodingChar C (JStr [u ! (k + 1)])
                \<and> isPercentEncodingChar C (JStr [u ! (k + 2)])))"
  shows "userinfoLoop C v (if is_String v then length (str v) else 0) 0 = Inr ()"
proof (cases v)
  case (JStr u)
  have "userinfoLoop C (JStr u) (length u) 0 = Inr ()"
  proof (rule userinfoLoop_accepts)
    fix k
    assume "k < length u"
    with assms JStr
    have "isUserinfoChar C (JStr [u ! k])
           \<and> (u ! k = CHR ''%'' \<longrightarrow> k + 2 < length u
                \<and> isPercentEncodingChar C (JStr [u ! (k + 1)])
                \<and> isPercentEncodingChar C (JStr [u ! (k + 2)]))"
      by blast
    with \<open>k < length u\<close>
    show "isUserinfoChar C (charAt (JStr u) (int k)) \<and>
           (charAt (JStr u) (int k) = JStr ''%'' \<longrightarrow>
              k + 2 < length u \<and> isPercentEncodingChar C (charAt (JStr u) (int k + 1))
              \<and> isPercentEncodingChar C (charAt (JStr u) (int k + 2)))"
      by (auto simp: nat_add_distrib)
  qed simp
  with JStr show ?thesis by simp
qed (simp_all add: userinfoLoop.simps)

lemma checkURISyntax_bad_host:
  "checkURISyntax (parseURI_spec Some) (JStr ''h://u@x_y/'') =
     Inr \<lparr> scheme = JStr ''h'', authority = JStr ''u@x_y'', authorityPunydecoded = JStr ''u@x_y'',
               userinfo = JStr ''u'', host = JStr ''x_y'', hostPunydecoded = JStr ''x_y'',
               port = JUndefined, path = JStr ''/'', pathqf = JStr ''/'', query = JUndefined,
               fragment = JUndefined,
               valid = True, frozen = False, schemeLen = 1 \<rparr>"
  by code_simp

text \<open>
  C4. Let \<^verbatim>\<open>uri\<close> be a string that passes \<^verbatim>\<open>checkURISyntax\<close>, whose scheme has valid
  characters only (by \<^verbatim>\<open>isSchemeChar\<close>, with \<^verbatim>\<open>start\<close> at index 0), whose authority
  exists and whose userinfo, if it is a string, has valid characters only (by
  \<^verbatim>\<open>isUserinfoChar\<close>, and every \<^verbatim>\<open>%\<close> of it followed by two characters that
  \<^verbatim>\<open>isPercentEncodingChar\<close> accepts; with the userinfo characters of the spec, which do
  not include \<^verbatim>\<open>%\<close>, the second condition is empty). If the parsed host satisfies
  neither \<^verbatim>\<open>isIP\<close> nor \<^verbatim>\<open>isDomain\<close>, \<^verbatim>\<open>checkURI\<close> throws \<^verbatim>\<open>URI_INVALID_HOST\<close>. The two
  validators return a truth value: the error is \<^verbatim>\<open>checkURI\<close>'s own.
\<close>

theorem checkURI_invalid_host:
  "checkURISyntax (parseURI M) (JStr uri) = Inr r
   \<and> scheme (parseURI M uri) = JStr s
   \<and> (\<forall>k<length s. isSchemeChar (chars M) (JStr [s ! k]) (k = 0))
   \<and> exists (authority (parseURI M uri))
   \<and> (\<forall>u. userinfo (parseURI M uri) = JStr u \<longrightarrow>
        (\<forall>k<length u. isUserinfoChar (chars M) (JStr [u ! k])
           \<and> (u ! k = CHR ''%'' \<longrightarrow> k + 2 < length u
                \<and> isPercentEncodingChar (chars M) (JStr [u ! (k + 1)])
                \<and> isPercentEncodingChar (chars M) (JStr [u ! (k + 2)]))))
   \<and> \<not> isIP M (host (parseURI M uri)) \<and> \<not> isDomain M (host (parseURI M uri))
   \<longrightarrow> checkURI M (JStr uri) opts = Inl URI_INVALID_HOST"
proof (intro impI, elim conjE)
  let ?c = "parseURI M uri"
  assume syn: "checkURISyntax (parseURI M) (JStr uri) = Inr r"
    and s: "scheme ?c = JStr s"
    and schemeChars: "\<forall>k<length s. isSchemeChar (chars M) (JStr [s ! k]) (k = 0)"
    and auth: "exists (authority ?c)"
    and userinfoChars: "\<forall>u. userinfo ?c = JStr u \<longrightarrow>
        (\<forall>k<length u. isUserinfoChar (chars M) (JStr [u ! k])
           \<and> (u ! k = CHR ''%'' \<longrightarrow> k + 2 < length u
                \<and> isPercentEncodingChar (chars M) (JStr [u ! (k + 1)])
                \<and> isPercentEncodingChar (chars M) (JStr [u ! (k + 2)])))"
    and noHost: "\<not> isIP M (host ?c)" "\<not> isDomain M (host ?c)"
  from syn s have "components.truncate r = ?c" and len: "schemeLen r = length s"
    by (auto dest!: checkURISyntax_Inr)
  note r = truncate_fields [OF this(1)] len
  have "schemeLoop (chars M) (JStr s) (length s) 0 = Inr ()"
    using schemeChars by (intro schemeLoop_accepts) simp
  then have scheme_ok: "schemeLoop (chars M) (scheme r) (schemeLen r) 0 = Inr ()"
    using r s by simp
  have "userinfoLoop (chars M) (userinfo ?c)
          (if is_String (userinfo ?c) then length (str (userinfo ?c)) else 0) 0 = Inr ()"
    using userinfoChars by (rule userinfoLoop_valid_userinfo)
  then have "authorityChecks M r = Inl URI_INVALID_HOST"
    unfolding authorityChecks_def Let_def r using noHost by simp
  then show "checkURI M (JStr uri) opts = Inl URI_INVALID_HOST"
    using syn scheme_ok auth r by (simp add: checkURI_def Let_def)
qed

theorem checkURI_invalid_host_witness:
  "checkURI (spec_modules Some (\<lambda>h. False) (\<lambda>h. False) id) (JStr ''h://u@x_y/'')
     \<lparr> https = JUndefined, web = JUndefined, sitemap = JUndefined \<rparr> = Inl URI_INVALID_HOST"
proof -
  have parsed: "parseURI_spec Some ''h://u@x_y/'' =
      \<lparr> scheme = JStr ''h'', authority = JStr ''u@x_y'', authorityPunydecoded = JStr ''u@x_y'',
               userinfo = JStr ''u'', host = JStr ''x_y'', hostPunydecoded = JStr ''x_y'',
               port = JUndefined, path = JStr ''/'', pathqf = JStr ''/'', query = JUndefined,
               fragment = JUndefined \<rparr>"
    by code_simp
  show ?thesis
    by (rule checkURI_invalid_host
          [where M = "spec_modules Some (\<lambda>h. False) (\<lambda>h. False) id" and uri = "''h://u@x_y/''"
             and s = "''h''", rule_format])
       (simp add: spec_modules_def checkURISyntax_bad_host parsed spec_chars_def letters_def
          unreserved_def subDelims_def digits_def)
qed

section \<open>Sitemap mode\<close>

text \<open>The lookup in the escape table: the first sequence that matches at \<open>i\<close>.\<close>

lemma length_escapeCodesKeys: "length escapeCodesKeys = escapeCodesKeysLen"
  by (simp add: escapeCodesKeys_def escapeCodesKeysLen_def)

lemma escapeLoop_find:
  "escapeLoop p len i index =
     map_option length
       (find (\<lambda>e. i + length e \<le> len \<and> e = take (length e) (drop i p))
          (drop index escapeCodesKeys))"
proof (induction p len i index rule: escapeLoop.induct)
  case (1 p len i index)
  show ?case
  proof (cases "index < escapeCodesKeysLen")
    case True
    then have "drop index escapeCodesKeys = escapeCodesKeys ! index # drop (index + 1) escapeCodesKeys"
      by (simp add: Cons_nth_drop_Suc length_escapeCodesKeys)
    then show ?thesis
      using True "1.IH" by (subst escapeLoop.simps) (simp add: Let_def)
  next
    case False
    then have "drop index escapeCodesKeys = []"
      by (simp add: length_escapeCodesKeys)
    then show ?thesis
      using False by (subst escapeLoop.simps) simp
  qed
qed

lemma matches_in_bounds:
  assumes "take (length e) (drop i p) = e" and "e \<noteq> []"
  shows "i + length e \<le> length p"
proof -
  have "length (take (length e) (drop i p)) = length e"
    using assms(1) by simp
  then have "length e \<le> length p - i"
    by simp
  moreover have "0 < length e"
    using assms(2) by simp
  ultimately show ?thesis
    by linarith
qed

lemma escapeCodesKeys_nonempty: "e \<in> set escapeCodesKeys \<Longrightarrow> e \<noteq> []"
  by (auto simp: escapeCodesKeys_def)

lemma escapeLoop_None:
  assumes "\<forall>e\<in>set escapeCodesKeys. take (length e) (drop i p) \<noteq> e"
  shows "escapeLoop p (length p) i 0 = None"
  using assms by (auto simp: escapeLoop_find find_None_iff)

lemma escapeLoop_Some:
  assumes "escapeLoop p (length p) i 0 = Some k"
  shows "\<exists>e\<in>set escapeCodesKeys. k = length e \<and> take (length e) (drop i p) = e"
proof -
  from assms obtain e where
    "find (\<lambda>e. i + length e \<le> length p \<and> e = take (length e) (drop i p)) escapeCodesKeys = Some e"
    and k: "k = length e"
    by (auto simp: escapeLoop_find)
  then have "e \<in> set escapeCodesKeys" "e = take (length e) (drop i p)"
    by (auto simp: find_Some_iff)
  with k show ?thesis
    by auto
qed


lemma escapeCodesKeys_prefix_free:
  "e \<in> set escapeCodesKeys \<Longrightarrow> e' \<in> set escapeCodesKeys \<Longrightarrow> take (length e) e' = e \<Longrightarrow> e = e'"
  by (auto simp: escapeCodesKeys_def)

lemma same_match:
  assumes e: "e \<in> set escapeCodesKeys" "take (length e) xs = e"
    and e': "e' \<in> set escapeCodesKeys" "take (length e') xs = e'"
  shows "e = e'"
proof (cases "length e \<le> length e'")
  case True
  have "take (length e) e' = take (length e) (take (length e') xs)"
    using e'(2) by simp
  also have "\<dots> = take (length e) xs"
    using True by (simp add: min_def)
  finally show ?thesis
    using e e'(1) escapeCodesKeys_prefix_free by simp
next
  case False
  have "take (length e') e = take (length e') (take (length e) xs)"
    using e(2) by simp
  also have "\<dots> = take (length e') xs"
    using False by (simp add: min_def)
  finally show ?thesis
    using e' e(1) escapeCodesKeys_prefix_free [of e' e] by simp
qed

lemma escapeLoop_match:
  assumes "e \<in> set escapeCodesKeys" and "take (length e) (drop i p) = e"
  shows "escapeLoop p (length p) i 0 = Some (length e)"
proof (cases "escapeLoop p (length p) i 0")
  case None
  then have "find (\<lambda>e. i + length e \<le> length p \<and> e = take (length e) (drop i p)) escapeCodesKeys = None"
    by (simp add: escapeLoop_find)
  then have "\<not> (i + length e \<le> length p \<and> e = take (length e) (drop i p))"
    using assms(1) by (auto simp: find_None_iff)
  with assms matches_in_bounds [OF assms(2)] escapeCodesKeys_nonempty [OF assms(1)]
  show ?thesis by simp
next
  case (Some k)
  then obtain e' where "e' \<in> set escapeCodesKeys" "k = length e'" "take (length e') (drop i p) = e'"
    using escapeLoop_Some by blast
  with assms have "e = e'"
    using same_match by blast
  with Some \<open>k = length e'\<close> show ?thesis
    by simp
qed


lemma percentEncodingAt_cases:
  assumes "i < length p" and "percentEncodingAt C (JStr p) (int (length p)) (int i) = Inr offset"
  shows "(offset = 0 \<and> p ! i \<noteq> CHR ''%'') \<or>
         (offset = 2 \<and> p ! i = CHR ''%'' \<and> i + 2 < length p
            \<and> isPercentEncodingChar C (JStr [p ! (i + 1)])
            \<and> isPercentEncodingChar C (JStr [p ! (i + 2)]))"
  using assms by (auto simp: percentEncodingAt_def nat_add_distrib split: if_splits)

lemma percentEncodingAt_not_percent:
  "i < length p \<Longrightarrow> p ! i \<noteq> CHR ''%'' \<Longrightarrow>
     percentEncodingAt C (JStr p) (int (length p)) (int i) = Inr 0"
  by (simp add: percentEncodingAt_def)

lemma pathqfLoop_step:
  assumes "i < length p"
  shows "pathqfLoop C sm (JStr p) (length p) i =
     (if \<not> isURIChar C (JStr [p ! i]) then Inl URI_INVALID_CHAR
      else
        (case percentEncodingAt C (JStr p) (int (length p)) (int i) of
           Inl e \<Rightarrow> Inl e
         | Inr offset \<Rightarrow>
             (if sm then
                (if charAt (JStr p) (int (i + offset)) = JStr ''&'' then
                   (case escapeLoop p (length p) (i + offset) 0 of
                      None \<Rightarrow> Inl URI_INVALID_SITEMAP_CHAR
                    | Some escapeOffset \<Rightarrow>
                        pathqfLoop C sm (JStr p) (length p) (i + offset + escapeOffset - 1 + 1))
                 else if array_includes entitiesKeys (charAt (JStr p) (int (i + offset))) then
                   Inl URI_INVALID_SITEMAP_CHAR
                 else pathqfLoop C sm (JStr p) (length p) (i + offset + 1))
              else pathqfLoop C sm (JStr p) (length p) (i + offset + 1))))"
  using assms
  by (subst pathqfLoop.simps, unfold jsval.sel)
    (simp add: checkPercentEncoding_in_loop charAt_in_range del: charAt.simps)

lemma match_first_char:
  assumes "e \<in> set escapeCodesKeys" and "take (length e) (drop i p) = e"
  shows "i < length p \<and> p ! i = CHR ''&''"
proof -
  have ne: "e \<noteq> []" and hd: "e ! 0 = CHR ''&''"
    using assms(1) by (auto simp: escapeCodesKeys_def)
  have bound: "i + length e \<le> length p"
    using assms(2) ne by (rule matches_in_bounds)
  with ne have i: "i < length p"
    by (cases e) auto
  have "e ! 0 = take (length e) (drop i p) ! 0"
    using assms(2) by simp
  also have "\<dots> = p ! i"
    using ne i by simp
  finally show ?thesis
    using hd i by simp
qed

lemma pathqfLoop_unescaped_ampersand:
  assumes "i < length p" and "isURIChar C (JStr [p ! i])" and "p ! i = CHR ''&''"
    and "\<forall>e\<in>set escapeCodesKeys. take (length e) (drop i p) \<noteq> e"
  shows "pathqfLoop C True (JStr p) (length p) i = Inl URI_INVALID_SITEMAP_CHAR"
  using assms
  by (simp add: pathqfLoop_step percentEncodingAt_not_percent escapeLoop_None)

lemma pathqfLoop_escape_sequence:
  assumes "isURIChar C (JStr [p ! i])" and "e \<in> set escapeCodesKeys"
    and "take (length e) (drop i p) = e"
  shows "pathqfLoop C True (JStr p) (length p) i = pathqfLoop C True (JStr p) (length p) (i + length e)"
proof -
  have i: "i < length p" "p ! i = CHR ''&''"
    using match_first_char [OF assms(2,3)] by simp_all
  have "0 < length e"
    using escapeCodesKeys_nonempty [OF assms(2)] by simp
  then show ?thesis
    using i assms(1) escapeLoop_match [OF assms(2,3)]
    by (simp add: pathqfLoop_step percentEncodingAt_not_percent)
qed

lemma pathqfLoop_raw_entity:
  assumes "i < length p" and "isURIChar C (JStr [p ! i])"
    and "p ! i \<in> {CHR ''<'', CHR ''>'', CHR 0x22, CHR 0x27}"
  shows "pathqfLoop C True (JStr p) (length p) i = Inl URI_INVALID_SITEMAP_CHAR"
proof -
  from assms(3) have "p ! i \<noteq> CHR ''%''" "p ! i \<noteq> CHR ''&''" "[p ! i] \<in> set entitiesKeys"
    by (auto simp: entitiesKeys_def)
  then show ?thesis
    using assms(1,2) by (simp add: pathqfLoop_step percentEncodingAt_not_percent)
qed

lemma pathqfLoop_invalid_char:
  assumes "i < length p" and "\<not> isURIChar C (JStr [p ! i])"
  shows "pathqfLoop C sm (JStr p) (length p) i = Inl URI_INVALID_CHAR"
  using assms by (simp add: pathqfLoop_step)


lemma escape_inner_chars:
  assumes "e \<in> set escapeCodesKeys" and "0 < d" and "d < length e"
  shows "[e ! d] \<notin> set entitiesKeys"
proof -
  have "e ! d = tl e ! (d - 1)"
    using assms(2,3) by (cases e) (auto simp: nth_Cons')
  moreover have "d - 1 < length (tl e)"
    using assms(2,3) by simp
  ultimately have "e ! d \<in> set (tl e)"
    by (metis nth_mem)
  moreover have "set (tl e) \<subseteq> set ''amp;ltgquos''"
    using assms(1) by (auto simp: escapeCodesKeys_def)
  ultimately have "e ! d \<in> set ''amp;ltgquos''"
    by blast
  then show ?thesis
    by (auto simp: entitiesKeys_def)
qed

lemma pathqfLoop_sitemap_accepts:
  assumes "pathqfLoop C True (JStr p) (length p) i = Inr ()"
    and notHex: "\<forall>c. [c] \<in> set entitiesKeys \<longrightarrow> \<not> isPercentEncodingChar C (JStr [c])"
  shows "\<forall>k. i \<le> k \<and> k < length p \<and> [p ! k] \<in> set entitiesKeys \<longrightarrow>
           (\<exists>e\<in>set escapeCodesKeys. take (length e) (drop k p) = e)"
  using assms(1)
proof (induction "length p - i" arbitrary: i rule: less_induct)
  case less
  show ?case
  proof (intro allI impI, elim conjE)
    fix k
    assume k: "i \<le> k" "k < length p" and entity: "[p ! k] \<in> set entitiesKeys"
    then have i: "i < length p"
      by simp
    have uri: "isURIChar C (JStr [p ! i])"
      using less.prems i by (auto simp: pathqfLoop_step split: if_splits)
    obtain offset where offset: "percentEncodingAt C (JStr p) (int (length p)) (int i) = Inr offset"
      using less.prems i uri by (auto simp: pathqfLoop_step split: sum.splits)
    define j where "j = i + offset"
    have off: "(offset = 0 \<and> p ! i \<noteq> CHR ''%'') \<or>
         (offset = 2 \<and> p ! i = CHR ''%'' \<and> i + 2 < length p
            \<and> isPercentEncodingChar C (JStr [p ! (i + 1)])
            \<and> isPercentEncodingChar C (JStr [p ! (i + 2)]))"
      using percentEncodingAt_cases [OF i offset] .
    then have j: "i \<le> j" "j < length p"
      using i by (auto simp: j_def)
    have skipped: "[p ! m] \<notin> set entitiesKeys" if "i \<le> m" "m < j" for m
    proof -
      from that off have two: "offset = 2" "p ! i = CHR ''%''"
        "isPercentEncodingChar C (JStr [p ! (i + 1)])"
        by (auto simp: j_def)
      from that two(1) have "m = i \<or> m = i + 1"
        by (auto simp: j_def)
      then show ?thesis
      proof
        assume "m = i"
        with two(2) show ?thesis by (simp add: entitiesKeys_def)
      next
        assume "m = i + 1"
        with two(3) notHex show ?thesis by blast
      qed
    qed
    have rest:
      "(if p ! j = CHR ''&'' then
          (case escapeLoop p (length p) j 0 of
             None \<Rightarrow> Inl URI_INVALID_SITEMAP_CHAR
           | Some escapeOffset \<Rightarrow> pathqfLoop C True (JStr p) (length p) (j + escapeOffset - 1 + 1))
        else if [p ! j] \<in> set entitiesKeys then Inl URI_INVALID_SITEMAP_CHAR
        else pathqfLoop C True (JStr p) (length p) (j + 1)) = Inr ()"
    proof -
      have "pathqfLoop C True (JStr p) (length p) i =
        (if charAt (JStr p) (int j) = JStr ''&'' then
          (case escapeLoop p (length p) j 0 of
             None \<Rightarrow> Inl URI_INVALID_SITEMAP_CHAR
           | Some escapeOffset \<Rightarrow> pathqfLoop C True (JStr p) (length p) (j + escapeOffset - 1 + 1))
         else if array_includes entitiesKeys (charAt (JStr p) (int j)) then
           Inl URI_INVALID_SITEMAP_CHAR
         else pathqfLoop C True (JStr p) (length p) (j + 1))"
        using i uri offset unfolding j_def by (simp add: pathqfLoop_step del: charAt.simps)
      then show ?thesis
        using less.prems unfolding charAt_in_range [OF j(2)] by simp
    qed
    show "\<exists>e\<in>set escapeCodesKeys. take (length e) (drop k p) = e"
    proof (cases "p ! j = CHR ''&''")
      case True
      with rest obtain escapeOffset where
        found: "escapeLoop p (length p) j 0 = Some escapeOffset"
        and continues: "pathqfLoop C True (JStr p) (length p) (j + escapeOffset - 1 + 1) = Inr ()"
        by (auto split: option.splits)
      from found obtain e where e: "e \<in> set escapeCodesKeys" "escapeOffset = length e"
        "take (length e) (drop j p) = e"
        using escapeLoop_Some by blast
      have pos: "0 < length e"
        using escapeCodesKeys_nonempty [OF e(1)] by simp
      with continues e(2) have "pathqfLoop C True (JStr p) (length p) (j + length e) = Inr ()"
        by simp
      moreover have "length p - (j + length e) < length p - i"
        using pos j i by linarith
      ultimately have later: "\<forall>k. j + length e \<le> k \<and> k < length p \<and> [p ! k] \<in> set entitiesKeys \<longrightarrow>
           (\<exists>e\<in>set escapeCodesKeys. take (length e) (drop k p) = e)"
        by (rule less.hyps [rotated])
      consider "k < j" | "k = j" | "j < k" "k < j + length e" | "j + length e \<le> k"
        by linarith
      then show ?thesis
      proof cases
        case 1
        with k(1) skipped entity show ?thesis by blast
      next
        case 2
        with e show ?thesis by blast
      next
        case 3
        have "e ! (k - j) = take (length e) (drop j p) ! (k - j)"
          using e(3) by simp
        also have "\<dots> = p ! k"
          using 3 k(2) by simp
        finally have "[p ! k] \<notin> set entitiesKeys"
          using escape_inner_chars [OF e(1), of "k - j"] 3 by simp
        with entity show ?thesis by simp
      next
        case 4
        with later k(2) entity show ?thesis by blast
      qed
    next
      case False
      with rest have here: "[p ! j] \<notin> set entitiesKeys"
        and continues: "pathqfLoop C True (JStr p) (length p) (j + 1) = Inr ()"
        by (auto split: if_splits)
      have "length p - (j + 1) < length p - i"
        using j i by linarith
      with continues have later: "\<forall>k. j + 1 \<le> k \<and> k < length p \<and> [p ! k] \<in> set entitiesKeys \<longrightarrow>
           (\<exists>e\<in>set escapeCodesKeys. take (length e) (drop k p) = e)"
        by (rule less.hyps [rotated])
      consider "k < j" | "k = j" | "j + 1 \<le> k"
        by linarith
      then show ?thesis
      proof cases
        case 1
        with k(1) skipped entity show ?thesis by blast
      next
        case 2
        with here entity show ?thesis by simp
      next
        case 3
        with later k(2) entity show ?thesis by blast
      qed
    qed
  qed
qed


lemma checkURI_Inr_pathqfLoop:
  "checkURI M uri opts = Inr r \<Longrightarrow>
     pathqfLoop (chars M) (sitemap opts = JBool True) (pathqf r)
       (if is_String (pathqf r) then length (str (pathqf r)) else 0) 0 = Inr ()"
  unfolding checkURI_def Let_def
  by (auto split: sum.splits)

lemma parse_unescaped:
  "scheme (parseURI_spec decode ''http://example.com/a&b'') = JStr ''http''"
  "authority (parseURI_spec decode ''http://example.com/a&b'') = JStr ''example.com''"
  "userinfo (parseURI_spec decode ''http://example.com/a&b'') = JUndefined"
  "host (parseURI_spec decode ''http://example.com/a&b'') = JStr ''example.com''"
  "port (parseURI_spec decode ''http://example.com/a&b'') = JUndefined"
  "path (parseURI_spec decode ''http://example.com/a&b'') = JStr ''/a&b''"
  "pathqf (parseURI_spec decode ''http://example.com/a&b'') = JStr ''/a&b''"
  by code_simp+

lemma parse_escaped:
  "scheme (parseURI_spec decode ''http://example.com/a&amp;b'') = JStr ''http''"
  "authority (parseURI_spec decode ''http://example.com/a&amp;b'') = JStr ''example.com''"
  "userinfo (parseURI_spec decode ''http://example.com/a&amp;b'') = JUndefined"
  "host (parseURI_spec decode ''http://example.com/a&amp;b'') = JStr ''example.com''"
  "port (parseURI_spec decode ''http://example.com/a&amp;b'') = JUndefined"
  "path (parseURI_spec decode ''http://example.com/a&amp;b'') = JStr ''/a&amp;b''"
  "pathqf (parseURI_spec decode ''http://example.com/a&amp;b'') = JStr ''/a&amp;b''"
  by code_simp+

lemma loops_on_examples:
  "schemeLoop spec_chars (JStr ''http'') (Suc (Suc (Suc (Suc 0)))) 0 = Inr ()"
  "userinfoLoop spec_chars JUndefined 0 0 = Inr ()"
  "pathqfLoop spec_chars True (JStr ''/a&b'') (Suc (Suc (Suc (Suc 0)))) 0
     = Inl URI_INVALID_SITEMAP_CHAR"
  "pathqfLoop spec_chars True (JStr ''/a&amp;b'')
     (Suc (Suc (Suc (Suc (Suc (Suc (Suc (Suc 0)))))))) 0 = Inr ()"
  by code_simp+

lemma checkSitemapURL_examples:
  assumes "ip (JStr ''example.com'') \<or> domain (JStr ''example.com'')"
  shows "checkSitemapURL (spec_modules decode domain ip cast) (JStr ''http://example.com/a&b'')
           = Inl URI_INVALID_SITEMAP_CHAR"
    and "\<exists>r. checkSitemapURL (spec_modules decode domain ip cast) (JStr ''http://example.com/a&amp;b'')
           = Inr r"
proof -
  have "checkURI (spec_modules decode domain ip cast) (JStr ''http://example.com/a&b'')
          \<lparr> https = JUndefined, web = JUndefined, sitemap = JBool True \<rparr> = Inl URI_INVALID_SITEMAP_CHAR"
    using assms
    by (auto simp: checkURI_def checkURISyntax_def checkParsed_def Let_def parse_unescaped
        startsWith_def spec_modules_def authorityChecks_def loops_on_examples)
  then show "checkSitemapURL (spec_modules decode domain ip cast) (JStr ''http://example.com/a&b'')
           = Inl URI_INVALID_SITEMAP_CHAR"
    by (simp add: checkSitemapURL_def checkHttpURL_cases)
  have "\<exists>r. checkURI (spec_modules decode domain ip cast) (JStr ''http://example.com/a&amp;b'')
          \<lparr> https = JUndefined, web = JUndefined, sitemap = JBool True \<rparr> = Inr r
          \<and> scheme r = JStr ''http'' \<and> authority r = JStr ''example.com''"
    using assms
    by (auto simp: checkURI_def checkURISyntax_def checkParsed_def Let_def parse_escaped
        startsWith_def spec_modules_def authorityChecks_def loops_on_examples)
  then show "\<exists>r. checkSitemapURL (spec_modules decode domain ip cast) (JStr ''http://example.com/a&amp;b'')
           = Inr r"
    by (auto simp: checkSitemapURL_def checkHttpURL_cases schemesToCheck_def)
qed

lemma pathqfLoop_spec_chars_raw:
  assumes "i < length p" and "p ! i \<in> {CHR ''<'', CHR ''>'', CHR 0x22}"
  shows "pathqfLoop spec_chars sm (JStr p) (length p) i = Inl URI_INVALID_CHAR"
proof -
  have "\<not> isURIChar spec_chars (JStr [p ! i])"
    using assms(2)
    by (auto simp: spec_chars_def unreserved_def subDelims_def letters_def digits_def)
  with assms(1) show ?thesis
    by (rule pathqfLoop_invalid_char)
qed


text \<open>
  C7, as the code has it. In Sitemap mode, when the scan of \<^verbatim>\<open>pathqf\<close> stands at an
  \<^verbatim>\<open>&\<close> that \<^verbatim>\<open>isURIChar\<close> accepts: if none of the five escape sequences of the table
  is found at that position, \<^verbatim>\<open>URI_INVALID_SITEMAP_CHAR\<close> is thrown; if one is, the
  scan goes on behind it. When the scan stands at a raw \<^verbatim>\<open><\<close>, \<^verbatim>\<open>>\<close>, double quote or
  apostrophe that \<^verbatim>\<open>isURIChar\<close> accepts, \<^verbatim>\<open>URI_INVALID_SITEMAP_CHAR\<close> is thrown. A
  character that \<^verbatim>\<open>isURIChar\<close> rejects throws \<^verbatim>\<open>URI_INVALID_CHAR\<close> before the Sitemap
  check, in either mode: with the character classes of the spec that is so for
  a raw \<^verbatim>\<open><\<close>, \<^verbatim>\<open>>\<close> and double quote. If \<^verbatim>\<open>checkURI\<close> succeeds in Sitemap mode (and
  no character of the entity table counts as a hexadecimal digit), every \<^verbatim>\<open>&\<close> of
  \<^verbatim>\<open>pathqf\<close> begins one of the five escape sequences and \<^verbatim>\<open>pathqf\<close> has no raw \<^verbatim>\<open><\<close>, \<^verbatim>\<open>>\<close>,
  double quote or apostrophe. With the parser and the character classes of the
  spec and a host validator that accepts \<^verbatim>\<open>example.com\<close>,
  \<^verbatim>\<open>checkSitemapURL("http://example.com/a&b")\<close> throws \<^verbatim>\<open>URI_INVALID_SITEMAP_CHAR\<close> and
  \<^verbatim>\<open>checkSitemapURL("http://example.com/a&amp;b")\<close> succeeds.
\<close>

theorem sitemap_entity_escaping:
  "(i < length p \<and> isURIChar C (JStr [p ! i]) \<and> p ! i = CHR ''&''
      \<and> (\<forall>e\<in>set escapeCodesKeys. take (length e) (drop i p) \<noteq> e)
      \<longrightarrow> pathqfLoop C True (JStr p) (length p) i = Inl URI_INVALID_SITEMAP_CHAR)
   \<and> (isURIChar C (JStr [p ! i]) \<and> e \<in> set escapeCodesKeys \<and> take (length e) (drop i p) = e
      \<longrightarrow> pathqfLoop C True (JStr p) (length p) i
            = pathqfLoop C True (JStr p) (length p) (i + length e))
   \<and> (i < length p \<and> isURIChar C (JStr [p ! i])
        \<and> p ! i \<in> {CHR ''<'', CHR ''>'', CHR 0x22, CHR 0x27}
      \<longrightarrow> pathqfLoop C True (JStr p) (length p) i = Inl URI_INVALID_SITEMAP_CHAR)
   \<and> (i < length p \<and> \<not> isURIChar C (JStr [p ! i])
      \<longrightarrow> pathqfLoop C sm (JStr p) (length p) i = Inl URI_INVALID_CHAR)
   \<and> (i < length p \<and> p ! i \<in> {CHR ''<'', CHR ''>'', CHR 0x22}
      \<longrightarrow> pathqfLoop spec_chars sm (JStr p) (length p) i = Inl URI_INVALID_CHAR)
   \<and> (checkURI M uri opts = Inr r \<and> sitemap opts = JBool True \<and> pathqf r = JStr q
        \<and> (\<forall>c. [c] \<in> set entitiesKeys \<longrightarrow> \<not> isPercentEncodingChar (chars M) (JStr [c]))
      \<longrightarrow> (\<forall>k<length q.
             (q ! k = CHR ''&'' \<longrightarrow> (\<exists>e\<in>set escapeCodesKeys. take (length e) (drop k q) = e))
             \<and> q ! k \<notin> {CHR ''<'', CHR ''>'', CHR 0x22, CHR 0x27}))
   \<and> (ip (JStr ''example.com'') \<or> domain (JStr ''example.com'')
      \<longrightarrow> checkSitemapURL (spec_modules decode domain ip cast) (JStr ''http://example.com/a&b'')
            = Inl URI_INVALID_SITEMAP_CHAR
          \<and> (\<exists>r. checkSitemapURL (spec_modules decode domain ip cast)
                    (JStr ''http://example.com/a&amp;b'') = Inr r))"
proof -
  have accepted: "(q ! k = CHR ''&'' \<longrightarrow> (\<exists>e\<in>set escapeCodesKeys. take (length e) (drop k q) = e))
             \<and> q ! k \<notin> {CHR ''<'', CHR ''>'', CHR 0x22, CHR 0x27}"
    if ok: "checkURI M uri opts = Inr r" and sm: "sitemap opts = JBool True"
      and q: "pathqf r = JStr q"
      and notHex: "\<forall>c. [c] \<in> set entitiesKeys \<longrightarrow> \<not> isPercentEncodingChar (chars M) (JStr [c])"
      and k: "k < length q" for k
  proof -
    have "pathqfLoop (chars M) True (JStr q) (length q) 0 = Inr ()"
      using checkURI_Inr_pathqfLoop [OF ok] sm q by simp
    then have escaped: "[q ! k] \<in> set entitiesKeys \<Longrightarrow>
        \<exists>e\<in>set escapeCodesKeys. take (length e) (drop k q) = e"
      using pathqfLoop_sitemap_accepts [OF _ notHex, of q 0] k by blast
    have amp: "\<exists>e\<in>set escapeCodesKeys. take (length e) (drop k q) = e" if "q ! k = CHR ''&''"
      using escaped that by (simp add: entitiesKeys_def)
    have raw: False if "q ! k \<in> {CHR ''<'', CHR ''>'', CHR 0x22, CHR 0x27}"
    proof -
      from that have "[q ! k] \<in> set entitiesKeys" "q ! k \<noteq> CHR ''&''"
        by (auto simp: entitiesKeys_def)
      with escaped match_first_char show False
        by blast
    qed
    from amp raw show ?thesis
      by blast
  qed
  show ?thesis
    apply (intro conjI)
    subgoal using pathqfLoop_unescaped_ampersand [of i p C] by blast
    subgoal using pathqfLoop_escape_sequence [of C p i e] by blast
    subgoal using pathqfLoop_raw_entity [of i p C] by blast
    subgoal using pathqfLoop_invalid_char [of i p C sm] by blast
    subgoal using pathqfLoop_spec_chars_raw [of i p sm] by blast
    subgoal using accepted by blast
    subgoal using checkSitemapURL_examples [of ip domain decode cast] by blast
    done
qed


theorem sitemap_entity_escaping_witness:
  "pathqfLoop spec_chars True (JStr ''/a&b'') (length ''/a&b'') 2 = Inl URI_INVALID_SITEMAP_CHAR
   \<and> checkSitemapURL (spec_modules Some (\<lambda>h. True) (\<lambda>h. False) id)
         (JStr ''http://example.com/a&b'') = Inl URI_INVALID_SITEMAP_CHAR"
proof -
  have unescaped:
    "pathqfLoop spec_chars True (JStr ''/a&b'') (length ''/a&b'') 2 = Inl URI_INVALID_SITEMAP_CHAR"
    by (rule sitemap_entity_escaping
          [where C = spec_chars and p = "''/a&b''" and i = 2, THEN conjunct1, rule_format])
       (simp add: spec_chars_def unreserved_def subDelims_def escapeCodesKeys_def)
  have example:
    "checkSitemapURL (spec_modules Some (\<lambda>h. True) (\<lambda>h. False) id)
         (JStr ''http://example.com/a&b'') = Inl URI_INVALID_SITEMAP_CHAR"
    using sitemap_entity_escaping
          [where decode = Some and domain = "\<lambda>h. True" and ip = "\<lambda>h. False" and cast = id,
           THEN conjunct2, THEN conjunct2, THEN conjunct2, THEN conjunct2, THEN conjunct2,
           THEN conjunct2]
    by simp
  from unescaped example show ?thesis
    by (rule conjI)
qed

text \<open>
  The claim C7 fails as stated: in Sitemap mode, on the \<^verbatim>\<open>pathqf\<close> \<^verbatim>\<open>/a<b\<close>, whose
  raw \<^verbatim>\<open><\<close> is outside any escape sequence, the scan throws \<^verbatim>\<open>URI_INVALID_CHAR\<close> (line
  273) and not \<^verbatim>\<open>URI_INVALID_SITEMAP_CHAR\<close>.
\<close>

theorem sitemap_raw_less_than_counterexample:
  "pathqfLoop spec_chars True (JStr ''/a<b'') 4 0 = Inl URI_INVALID_CHAR"
  by code_simp

end
